theory Spec2Isabelle
  imports Complex_Main "HOL-Library.AList"
begin

section \<open>Strings\<close>

text \<open>
  JavaScript strings are modelled as \<^typ>\<open>string\<close>. Every string operation the
  modelled functions use is written out here: \<open>endsWith\<close>, \<open>startsWith\<close>,
  and \<open>slice(0, -n)\<close>.
\<close>

definition endsWith :: "string \<Rightarrow> string \<Rightarrow> bool" where
  "endsWith s suf = (length suf \<le> length s \<and> drop (length s - length suf) s = suf)"

definition startsWith :: "string \<Rightarrow> string \<Rightarrow> bool" where
  "startsWith s pre = (take (length pre) s = pre)"

text \<open>\<open>s.slice(0, -n)\<close>: all but the last \<open>n\<close> characters.\<close>

definition slice_end :: "nat \<Rightarrow> string \<Rightarrow> string" where
  "slice_end n s = take (length s - n) s"

text \<open>
  The removal of a trailing suffix, as the descriptions have it: the suffix is removed
  when the string ends with it. \<open>without_suffix\<close> works on the reversed string and does
  not use the lengths that the code passes to \<open>slice\<close>.
\<close>

fun drop_prefix :: "string \<Rightarrow> string \<Rightarrow> string option" where
  "drop_prefix [] s = Some s"
| "drop_prefix (p # ps) [] = None"
| "drop_prefix (p # ps) (c # cs) = (if p = c then drop_prefix ps cs else None)"

definition without_suffix :: "string \<Rightarrow> string \<Rightarrow> string" where
  "without_suffix suf s = (case drop_prefix (rev suf) (rev s) of Some r \<Rightarrow> rev r | None \<Rightarrow> s)"

section \<open>installer.ts: sanitizeName\<close>

text \<open>
  \<^verbatim>\<open>name.toLowerCase().replace(/[^a-z0-9._]+/g, '-').replace(/^[.\-]+|[.\-]+$/g, '')\<close>
  followed by \<^verbatim>\<open>sanitized.substring(0, 255) || 'unnamed-skill'\<close>.
\<close>

text \<open>The character class \<open>[a-z0-9._]\<close>.\<close>

definition allowed_char :: "char \<Rightarrow> bool" where
  "allowed_char c = (c \<in> set ''abcdefghijklmnopqrstuvwxyz0123456789._'')"

text \<open>The character class \<open>[.\-]\<close> of the second replacement.\<close>

definition separator_char :: "char \<Rightarrow> bool" where
  "separator_char c = (c = CHR ''.'' \<or> c = CHR ''-'')"

text \<open>
  \<open>.replace(/[^a-z0-9._]+/g, '-')\<close>: every maximal run of characters outside the
  class becomes one hyphen.
\<close>

function replace_disallowed :: "string \<Rightarrow> string" where
  "replace_disallowed [] = []"
| "replace_disallowed (c # cs) =
     (if allowed_char c then c # replace_disallowed cs
      else CHR ''-'' # replace_disallowed (dropWhile (\<lambda>d. \<not> allowed_char d) cs))"
  by pat_completeness auto
termination
  by (relation "measure length") (auto simp: le_imp_less_Suc length_dropWhile_le)

text \<open>
  \<open>.replace(/^[.\-]+|[.\-]+$/g, '')\<close>: the run of separators at the start and the
  run at the end are deleted.
\<close>

definition strip_separators :: "string \<Rightarrow> string" where
  "strip_separators s = rev (dropWhile separator_char (rev (dropWhile separator_char s)))"

text \<open>
  \<open>toLowerCase\<close> is a parameter of the model: the properties below hold whatever it
  returns. \<open>toLowerCase\<close> below is its action on ASCII.
\<close>

definition lower_char :: "char \<Rightarrow> char" where
  "lower_char c =
     (case map_of (zip ''ABCDEFGHIJKLMNOPQRSTUVWXYZ'' ''abcdefghijklmnopqrstuvwxyz'') c of
        Some d \<Rightarrow> d
      | None \<Rightarrow> c)"

definition toLowerCase :: "string \<Rightarrow> string" where
  "toLowerCase s = map lower_char s"

text \<open>The value of the local constant \<open>sanitized\<close>.\<close>

definition sanitized_with :: "(string \<Rightarrow> string) \<Rightarrow> string \<Rightarrow> string" where
  "sanitized_with lower name = strip_separators (replace_disallowed (lower name))"

definition sanitizeName_with :: "(string \<Rightarrow> string) \<Rightarrow> string \<Rightarrow> string" where
  "sanitizeName_with lower name =
     (let cut = take 255 (sanitized_with lower name)
      in if cut = [] then ''unnamed-skill'' else cut)"

definition sanitizeName :: "string \<Rightarrow> string" where
  "sanitizeName name = sanitizeName_with toLowerCase name"

text \<open>Lowercase letters, digits, dot, underscore and hyphen.\<close>

definition name_char :: "char \<Rightarrow> bool" where
  "name_char c = (allowed_char c \<or> c = CHR ''-'')"

section \<open>skill-lock.ts: lock entries and the lock file\<close>

text \<open>
  \<open>interface SkillLockEntry\<close>, in two steps: the fields a caller of
  \<open>addSkillToLock\<close> gives (\<open>Omit<SkillLockEntry, 'installedAt' | 'updatedAt'>\<close>),
  and the two timestamps. The optional \<open>skillPath\<close> is an option; an absent and an
  empty \<open>skillPath\<close> are both falsy where the code tests it.
\<close>

record SkillLockSource =
  source :: string
  sourceType :: string
  sourceUrl :: string
  skillPath :: "string option"
  skillFolderHash :: string

record SkillLockEntry = SkillLockSource +
  installedAt :: string
  updatedAt :: string

text \<open>
  \<open>interface SkillLockFile\<close>. \<open>skills\<close> is a JavaScript object used as a
  dictionary: an association list in the order of \<open>Object.keys\<close>, one pair per key.
\<close>

record SkillLockFile =
  version :: rat
  skills :: "(string \<times> SkillLockEntry) list"

text \<open>JavaScript truthiness of a value of type \<open>string | null | undefined\<close>.\<close>

definition truthy :: "string option \<Rightarrow> bool" where
  "truthy v = (case v of None \<Rightarrow> False | Some s \<Rightarrow> s \<noteq> [])"

section \<open>The folder of a skill path, as described\<close>

text \<open>
  The skill path with its trailing \<open>SKILL.md\<close> and trailing slash removed, in two
  readings. Word by word: a trailing \<open>SKILL.md\<close> is removed, then a trailing slash.
  With the file name taken together with the slash before it: a trailing \<open>/SKILL.md\<close>
  is removed, or else a trailing \<open>SKILL.md\<close>, and then a trailing slash. The two differ
  only on a path that ends with \<open>//SKILL.md\<close>.
\<close>

definition literal_folder :: "string \<Rightarrow> string" where
  "literal_folder p = without_suffix ''/'' (without_suffix ''SKILL.md'' p)"

definition described_folder :: "string \<Rightarrow> string" where
  "described_folder p =
     without_suffix ''/''
       (if endsWith p ''/SKILL.md'' then without_suffix ''/SKILL.md'' p
        else without_suffix ''SKILL.md'' p)"

section \<open>skill-lock.ts: fetchSkillFolderHash\<close>

text \<open>One element of the \<open>tree\<close> array of a GitHub Trees API answer, and the answer.\<close>

record tree_entry =
  entry_path :: string
  entry_type :: string
  entry_sha :: string

record tree_response =
  root_sha :: string
  tree :: "tree_entry list"

text \<open>\<open>skillPath.replace(/\\/g, '/')\<close>.\<close>

definition backslashes_to_slashes :: "string \<Rightarrow> string" where
  "backslashes_to_slashes s = map (\<lambda>c. if c = CHR 0x5C then CHR ''/'' else c) s"

text \<open>The value of \<open>folderPath\<close> when the loop over the branches starts.\<close>

definition folderPath_of :: "string \<Rightarrow> string" where
  "folderPath_of skill_path =
     (let p0 = backslashes_to_slashes skill_path;
          p1 = (if endsWith p0 ''/SKILL.md'' then slice_end 9 p0
                else if endsWith p0 ''SKILL.md'' then slice_end 8 p0
                else p0)
      in if endsWith p1 ''/'' then slice_end 1 p1 else p1)"

definition trees_url :: "string \<Rightarrow> string \<Rightarrow> string" where
  "trees_url ownerRepo branch =
     ''https://api.github.com/repos/'' @ ownerRepo @ ''/git/trees/'' @ branch @ ''?recursive=1''"

text \<open>The \<open>Authorization\<close> header is set only for a truthy token.\<close>

definition authorization :: "string option \<Rightarrow> string option" where
  "authorization token = (if truthy token then Some (''Bearer '' @ the token) else None)"

text \<open>
  The network is a parameter: \<open>http url auth\<close> is \<open>Some data\<close> when the request
  answers with \<open>response.ok\<close> and a body that parses, and \<open>None\<close> when \<open>fetch\<close>
  throws, \<open>response.ok\<close> is false or the body does not parse (\<open>continue\<close> in all
  three cases).
\<close>

type_synonym http = "string \<Rightarrow> string option \<Rightarrow> tree_response option"

text \<open>\<open>data.tree.find((entry) => entry.type === 'tree' && entry.path === folderPath)\<close>.\<close>

definition find_folder :: "string \<Rightarrow> tree_entry list \<Rightarrow> tree_entry option" where
  "find_folder folderPath entries =
     find (\<lambda>entry. entry_type entry = ''tree'' \<and> entry_path entry = folderPath) entries"

text \<open>The loop \<open>for (const branch of branches)\<close>.\<close>

fun try_branches :: "http \<Rightarrow> string \<Rightarrow> string \<Rightarrow> string option \<Rightarrow> string list \<Rightarrow> string option" where
  "try_branches http ownerRepo folderPath token [] = None"
| "try_branches http ownerRepo folderPath token (branch # rest) =
     (case http (trees_url ownerRepo branch) (authorization token) of
        None \<Rightarrow> try_branches http ownerRepo folderPath token rest
      | Some data \<Rightarrow>
          if folderPath = [] then Some (root_sha data)
          else (case find_folder folderPath (tree data) of
                  Some folderEntry \<Rightarrow> Some (entry_sha folderEntry)
                | None \<Rightarrow> try_branches http ownerRepo folderPath token rest))"

definition branches :: "string list" where
  "branches = [''main'', ''master'']"

definition fetchSkillFolderHash :: "http \<Rightarrow> string \<Rightarrow> string \<Rightarrow> string option \<Rightarrow> string option" where
  "fetchSkillFolderHash http ownerRepo skill_path token =
     try_branches http ownerRepo (folderPath_of skill_path) token branches"

text \<open>The answer to the request for the listing of a branch.\<close>

definition listing :: "http \<Rightarrow> string \<Rightarrow> string option \<Rightarrow> string \<Rightarrow> tree_response option" where
  "listing http ownerRepo token branch = http (trees_url ownerRepo branch) (authorization token)"

text \<open>
  The lookup as described, written without the functions of the code above. The
  request of a branch is spelt out; the subpath is a parameter; the directory entry
  is the first element of the listing, filtered by path and type; the branches are
  \<open>main\<close> and then \<open>master\<close>, and the second is asked when the first gives nothing.
\<close>

primrec slashed :: "string \<Rightarrow> string" where
  "slashed [] = []"
| "slashed (c # cs) = (if c = CHR 0x5C then CHR ''/'' else c) # slashed cs"

definition described_listing :: "http \<Rightarrow> string \<Rightarrow> string option \<Rightarrow> string \<Rightarrow> tree_response option" where
  "described_listing http ownerRepo token branch =
     http (''https://api.github.com/repos/'' @ ownerRepo @ ''/git/trees/'' @ branch @
           ''?recursive=1'')
       (case token of
          None \<Rightarrow> None
        | Some t \<Rightarrow> if t = [] then None else Some (''Bearer '' @ t))"

definition directory_hash :: "string \<Rightarrow> tree_entry list \<Rightarrow> string option" where
  "directory_hash subpath entries =
     (case filter (\<lambda>e. entry_path e = subpath \<and> entry_type e = ''tree'') entries of
        [] \<Rightarrow> None
      | e # others \<Rightarrow> Some (entry_sha e))"

definition described_on_branch ::
  "http \<Rightarrow> string \<Rightarrow> string option \<Rightarrow> string \<Rightarrow> string \<Rightarrow> string option" where
  "described_on_branch http ownerRepo token subpath branch =
     (case described_listing http ownerRepo token branch of
        None \<Rightarrow> None
      | Some data \<Rightarrow>
          if subpath = [] then Some (root_sha data) else directory_hash subpath (tree data))"

definition described_fetch :: "http \<Rightarrow> string \<Rightarrow> string option \<Rightarrow> string \<Rightarrow> string option" where
  "described_fetch http ownerRepo token subpath =
     (case described_on_branch http ownerRepo token subpath ''main'' of
        Some h \<Rightarrow> Some h
      | None \<Rightarrow> described_on_branch http ownerRepo token subpath ''master'')"

text \<open>
  A repository with two branches. \<open>main\<close> has no entry at all; \<open>master\<close> has the
  directory \<open>skills/a\<close> with its \<open>SKILL.md\<close>, and a file, not a directory, at
  \<open>skills/b\<close>.
\<close>

definition two_branch_repo :: http where
  "two_branch_repo url auth =
     (if url = trees_url ''o/r'' ''main'' then Some \<lparr>root_sha = ''m'', tree = []\<rparr>
      else if url = trees_url ''o/r'' ''master''
      then Some \<lparr>root_sha = ''s'',
             tree = [\<lparr>entry_path = ''skills/b'', entry_type = ''blob'', entry_sha = ''f''\<rparr>,
                     \<lparr>entry_path = ''skills/a'', entry_type = ''tree'', entry_sha = ''h''\<rparr>,
                     \<lparr>entry_path = ''skills/a/SKILL.md'', entry_type = ''blob'',
                      entry_sha = ''k''\<rparr>]\<rparr>
      else None)"

text \<open>The skill path \<open>skills\a\SKILL.md\<close>, written with backslashes.\<close>

definition backslash_path :: string where
  "backslash_path = ''skills'' @ [CHR 0x5C] @ ''a'' @ [CHR 0x5C] @ ''SKILL.md''"

section \<open>cli.ts: the reinstall URL of runUpdate\<close>

text \<open>\<open>.replace(/\.git$/, '')\<close> and \<open>.replace(/\/$/, '')\<close>.\<close>

definition replace_dot_git_end :: "string \<Rightarrow> string" where
  "replace_dot_git_end s = (if endsWith s ''.git'' then slice_end 4 s else s)"

definition replace_slash_end :: "string \<Rightarrow> string" where
  "replace_slash_end s = (if endsWith s ''/'' then slice_end 1 s else s)"

text \<open>The value of \<open>skillFolder\<close> in the loop over the updates.\<close>

definition skillFolder_of :: "string \<Rightarrow> string" where
  "skillFolder_of skill_path =
     (let f = (if endsWith skill_path ''/SKILL.md'' then slice_end 9 skill_path
               else if endsWith skill_path ''SKILL.md'' then slice_end 8 skill_path
               else skill_path)
      in if endsWith f ''/'' then slice_end 1 f else f)"

text \<open>The value of \<open>installUrl\<close> handed to \<open>spawnSync\<close>.\<close>

definition installUrl_of :: "SkillLockEntry \<Rightarrow> string" where
  "installUrl_of entry =
     (if truthy (skillPath entry)
      then replace_slash_end (replace_dot_git_end (sourceUrl entry)) @ ''/tree/main/'' @
           skillFolder_of (the (skillPath entry))
      else sourceUrl entry)"

text \<open>The stored URL with a trailing \<open>.git\<close> and a trailing slash removed.\<close>

definition described_base :: "string \<Rightarrow> string" where
  "described_base url = without_suffix ''/'' (without_suffix ''.git'' url)"

text \<open>The reinstall URL as described, with either reading of the folder.\<close>

definition described_installUrl_with :: "(string \<Rightarrow> string) \<Rightarrow> SkillLockEntry \<Rightarrow> string" where
  "described_installUrl_with folder entry =
     (case skillPath entry of
        None \<Rightarrow> sourceUrl entry
      | Some p \<Rightarrow>
          if p = [] then sourceUrl entry
          else described_base (sourceUrl entry) @ ''/tree/main/'' @ folder p)"

definition literal_installUrl :: "SkillLockEntry \<Rightarrow> string" where
  "literal_installUrl entry = described_installUrl_with literal_folder entry"

definition described_installUrl :: "SkillLockEntry \<Rightarrow> string" where
  "described_installUrl entry = described_installUrl_with described_folder entry"

section \<open>cli.ts: runCheck\<close>

text \<open>
  A call that may throw: \<open>Threw message\<close> carries what the \<open>catch\<close> block reads
  (\<open>err.message\<close>, or \<open>Unknown error\<close>).
\<close>

datatype 'a js_result = Threw string | Returned 'a

text \<open>
  \<open>fetchSkillFolderHash\<close> as the commands call it: owner and repository, the skill
  path (\<open>entry.skillPath!\<close> is passed as it is, so it is an option here) and the token.
\<close>

type_synonym fetcher = "string \<Rightarrow> string option \<Rightarrow> string option \<Rightarrow> string option js_result"

text \<open>The function of skill-lock.ts as a \<open>fetcher\<close>; \<open>undefined.replace\<close> throws.\<close>

definition github_fetcher :: "http \<Rightarrow> fetcher" where
  "github_fetcher http ownerRepo skill_path token =
     (case skill_path of
        None \<Rightarrow> Threw ''Cannot read properties of undefined (reading 'replace')''
      | Some p \<Rightarrow> Returned (fetchSkillFolderHash http ownerRepo p token))"

text \<open>
  The guard of both commands:
  \<^verbatim>\<open>entry.sourceType !== 'github' || !entry.skillFolderHash || !entry.skillPath\<close>.
\<close>

definition not_checkable :: "SkillLockEntry \<Rightarrow> bool" where
  "not_checkable entry =
     (sourceType entry \<noteq> ''github'' \<or> skillFolderHash entry = [] \<or> \<not> truthy (skillPath entry))"

type_synonym named_entry = "string \<times> SkillLockEntry"

text \<open>
  The first loop of \<open>runCheck\<close>: \<open>skillsBySource\<close> is a \<open>Map\<close>, kept in insertion
  order, and \<open>skippedCount\<close> a counter. Every key of a lock typed by \<open>SkillLockFile\<close>
  has an entry, so the test \<open>if (!entry) continue\<close> has no branch here.
\<close>

fun collect_by_source ::
  "named_entry list \<Rightarrow> (string \<times> named_entry list) list \<times> nat \<Rightarrow>
   (string \<times> named_entry list) list \<times> nat" where
  "collect_by_source [] state = state"
| "collect_by_source ((skillName, entry) # rest) (skillsBySource, skippedCount) =
     (if not_checkable entry
      then collect_by_source rest (skillsBySource, Suc skippedCount)
      else let existing = (case map_of skillsBySource (source entry) of
                             Some found \<Rightarrow> found
                           | None \<Rightarrow> [])
           in collect_by_source rest
                (AList.update (source entry) (existing @ [(skillName, entry)]) skillsBySource,
                 skippedCount))"

text \<open>The body of the inner loop: one skill of one source.\<close>

type_synonym check_lists = "(string \<times> string) list \<times> (string \<times> string \<times> string) list"

fun check_skill :: "fetcher \<Rightarrow> string option \<Rightarrow> string \<Rightarrow> named_entry \<Rightarrow> check_lists \<Rightarrow> check_lists" where
  "check_skill fetchHash token src (name, entry) (updates, errors) =
     (case fetchHash src (skillPath entry) token of
        Threw message \<Rightarrow> (updates, errors @ [(name, src, message)])
      | Returned latestHash \<Rightarrow>
          if \<not> truthy latestHash
          then (updates, errors @ [(name, src, ''Could not fetch from GitHub'')])
          else if the latestHash \<noteq> skillFolderHash entry
          then (updates @ [(name, src)], errors)
          else (updates, errors))"

definition check_sources ::
  "fetcher \<Rightarrow> string option \<Rightarrow> (string \<times> named_entry list) list \<Rightarrow> check_lists" where
  "check_sources fetchHash token skillsBySource =
     fold (\<lambda>(src, group) lists. fold (check_skill fetchHash token src) group lists)
       skillsBySource ([], [])"

record check_report =
  totalSkills :: nat
  skippedCount :: nat
  updates :: "(string \<times> string) list"
  errors :: "(string \<times> string \<times> string) list"

datatype check_outcome =
    NoSkillsTracked
  | NoGitHubSkills
  | Report check_report

definition runCheck :: "fetcher \<Rightarrow> string option \<Rightarrow> SkillLockFile \<Rightarrow> check_outcome" where
  "runCheck fetchHash token lock =
     (let skillNames = map fst (skills lock)
      in if length skillNames = 0 then NoSkillsTracked
         else case collect_by_source (skills lock) ([], 0) of
           (skillsBySource, skipped) \<Rightarrow>
             let total = length skillNames - skipped
             in if total = 0 then NoGitHubSkills
                else case check_sources fetchHash token skillsBySource of
                  (ups, errs) \<Rightarrow>
                    Report \<lparr>totalSkills = total, skippedCount = skipped,
                            updates = ups, errors = errs\<rparr>)"

section \<open>cli.ts: runUpdate\<close>

text \<open>
  The first loop of \<open>runUpdate\<close>: the list \<open>updates\<close> and the counter \<open>checkedCount\<close>.
  A fetch that throws is skipped.
\<close>

fun find_updates ::
  "fetcher \<Rightarrow> string option \<Rightarrow> named_entry list \<Rightarrow> named_entry list \<times> nat \<Rightarrow>
   named_entry list \<times> nat" where
  "find_updates fetchHash token [] state = state"
| "find_updates fetchHash token ((skillName, entry) # rest) (found, checkedCount) =
     (if not_checkable entry then find_updates fetchHash token rest (found, checkedCount)
      else case fetchHash (source entry) (skillPath entry) token of
        Threw message \<Rightarrow> find_updates fetchHash token rest (found, Suc checkedCount)
      | Returned latestHash \<Rightarrow>
          if truthy latestHash \<and> the latestHash \<noteq> skillFolderHash entry
          then find_updates fetchHash token rest (found @ [(skillName, entry)], Suc checkedCount)
          else find_updates fetchHash token rest (found, Suc checkedCount))"

text \<open>
  \<open>spawnSync('npx', ['-y', '@juanibiapina/skulls', 'add', installUrl, '-y'])\<close>:
  the parameter \<open>spawn\<close> gives \<open>result.status\<close> for an install URL.
\<close>

record update_report =
  installs :: "(string \<times> string) list"
  successCount :: nat
  failCount :: nat

fun apply_updates :: "(string \<Rightarrow> int option) \<Rightarrow> named_entry list \<Rightarrow> update_report \<Rightarrow> update_report" where
  "apply_updates spawn [] report = report"
| "apply_updates spawn ((name, entry) # rest) report =
     (let installUrl = installUrl_of entry;
          ran = report\<lparr>installs := installs report @ [(name, installUrl)]\<rparr>
      in if spawn installUrl = Some 0
         then apply_updates spawn rest (ran\<lparr>successCount := Suc (successCount ran)\<rparr>)
         else apply_updates spawn rest (ran\<lparr>failCount := Suc (failCount ran)\<rparr>))"

datatype update_outcome =
    NothingTracked
  | NoSkillsToCheck
  | AllUpToDate
  | Updated update_report

definition runUpdate ::
  "fetcher \<Rightarrow> (string \<Rightarrow> int option) \<Rightarrow> string option \<Rightarrow> SkillLockFile \<Rightarrow> update_outcome" where
  "runUpdate fetchHash spawn token lock =
     (if length (map fst (skills lock)) = 0 then NothingTracked
      else case find_updates fetchHash token (skills lock) ([], 0) of
        (found, checkedCount) \<Rightarrow>
          if checkedCount = 0 then NoSkillsToCheck
          else if length found = 0 then AllUpToDate
          else Updated (apply_updates spawn found
                 \<lparr>installs = [], successCount = 0, failCount = 0\<rparr>))"

text \<open>
  The three outcomes of the check for one entry, read off the body of the inner loop;
  the statements about \<open>runCheck\<close> are phrased with it.
\<close>

datatype verdict = UpToDate | UpdateAvailable | CouldNotCheck string

definition verdict_of :: "fetcher \<Rightarrow> string option \<Rightarrow> string \<Rightarrow> SkillLockEntry \<Rightarrow> verdict" where
  "verdict_of fetchHash token src entry =
     (case fetchHash src (skillPath entry) token of
        Threw message \<Rightarrow> CouldNotCheck message
      | Returned None \<Rightarrow> CouldNotCheck ''Could not fetch from GitHub''
      | Returned (Some h) \<Rightarrow>
          if h = [] then CouldNotCheck ''Could not fetch from GitHub''
          else if h = skillFolderHash entry then UpToDate
          else UpdateAvailable)"

text \<open>The pairs of a source and one of its skills held by \<open>skillsBySource\<close>.\<close>

definition members :: "(string \<times> named_entry list) list \<Rightarrow> (string \<times> named_entry) set" where
  "members groups = (\<Union>(src, grp) \<in> set groups. {src} \<times> set grp)"

text \<open>Inputs of the examples: a fetcher with a fixed answer, and two lock files.\<close>

definition answering :: "string option \<Rightarrow> fetcher" where
  "answering latest ownerRepo skill_path token = Returned latest"

definition abc_entry :: SkillLockEntry where
  "abc_entry =
     \<lparr>source = ''o/r'', sourceType = ''github'', sourceUrl = ''https://github.com/o/r.git'',
      skillPath = Some ''skills/a/SKILL.md'', skillFolderHash = ''abc'',
      installedAt = ''t0'', updatedAt = ''t0''\<rparr>"

definition abc_lock :: SkillLockFile where
  "abc_lock = \<lparr>version = 3, skills = [(''a'', abc_entry)]\<rparr>"




text \<open>A \<open>spawnSync\<close> whose child always exits with status 0.\<close>

definition spawn_ok :: "string \<Rightarrow> int option" where
  "spawn_ok installUrl = Some 0"

section \<open>skill-lock.ts and cli.ts: readSkillLock\<close>

text \<open>
  What \<open>JSON.parse\<close> returns. A number is the value of a double that is not NaN:
  a rational or an infinity (\<open>JSON.parse('1e999')\<close>).
\<close>

datatype js_number = Num rat | Infinity | NegInfinity

datatype json =
    JNull
  | JBool bool
  | JNumber js_number
  | JString string
  | JArray "json list"
  | JObject "(string \<times> json) list"

text \<open>\<open>x < CURRENT_VERSION\<close> on numbers.\<close>

definition CURRENT_VERSION :: rat where
  "CURRENT_VERSION = 3"

fun js_less :: "js_number \<Rightarrow> rat \<Rightarrow> bool" where
  "js_less (Num x) y = (x < y)"
| "js_less Infinity y = False"
| "js_less NegInfinity y = True"

text \<open>
  \<open>parsed.version\<close> and \<open>parsed.skills\<close>: reading a property of \<open>null\<close> throws, an
  object gives its own property or \<open>undefined\<close> (\<open>None\<close>), and an array, a string, a
  number or a boolean have neither property.
\<close>

fun property :: "string \<Rightarrow> json \<Rightarrow> json option js_result" where
  "property key JNull = Threw ''Cannot read properties of null''"
| "property key (JObject props) = Returned (map_of props key)"
| "property key other = Returned None"

text \<open>\<open>typeof v !== 'number'\<close> and \<open>!v\<close> for a property that may be \<open>undefined\<close>.\<close>

fun not_a_number :: "json option \<Rightarrow> bool" where
  "not_a_number (Some (JNumber x)) = False"
| "not_a_number other = True"

fun falsy :: "json option \<Rightarrow> bool" where
  "falsy None = True"
| "falsy (Some JNull) = True"
| "falsy (Some (JBool b)) = (\<not> b)"
| "falsy (Some (JNumber x)) = (x = Num 0)"
| "falsy (Some (JString s)) = (s = [])"
| "falsy (Some (JArray xs)) = False"
| "falsy (Some (JObject props)) = False"

text \<open>
  The literal \<open>{ version: CURRENT_VERSION, skills: {} }\<close>, which both files return
  for an unusable lock file, for the version constant of the file.
\<close>

definition empty_lock :: "rat \<Rightarrow> json" where
  "empty_lock current = JObject [(''version'', JNumber (Num current)), (''skills'', JObject [])]"

definition createEmptyLockFile :: json where
  "createEmptyLockFile = empty_lock CURRENT_VERSION"

text \<open>
  The lock file on disk: \<open>readFile\<close> throws when it is missing or unreadable.
  \<open>JSON.parse\<close> is a parameter, \<open>None\<close> when it throws.
\<close>

datatype lock_file_on_disk = Unreadable | Content string

type_synonym json_parse = "string \<Rightarrow> json option"

text \<open>
  The body of the \<open>try\<close> block once \<open>parsed\<close> is known: the two \<open>if\<close>
  statements, and the \<open>catch\<close> for a property read that throws. The two files have the
  same body, each with its own version constant.
\<close>

definition guard_version :: "rat \<Rightarrow> json \<Rightarrow> json" where
  "guard_version current parsed =
     (case property ''version'' parsed of
        Threw message \<Rightarrow> empty_lock current
      | Returned version_value \<Rightarrow>
          (case property ''skills'' parsed of
             Threw message \<Rightarrow> empty_lock current
           | Returned skills_value \<Rightarrow>
               if not_a_number version_value \<or> falsy skills_value then empty_lock current
               else (case version_value of
                       Some (JNumber v) \<Rightarrow>
                         if js_less v current then empty_lock current else parsed
                     | other \<Rightarrow> empty_lock current)))"

definition readSkillLock :: "json_parse \<Rightarrow> lock_file_on_disk \<Rightarrow> json" where
  "readSkillLock parse disk =
     (case disk of
        Unreadable \<Rightarrow> createEmptyLockFile
      | Content content \<Rightarrow>
          (case parse content of
             None \<Rightarrow> createEmptyLockFile
           | Some parsed \<Rightarrow> guard_version CURRENT_VERSION parsed))"

text \<open>The copy in cli.ts, with its own constant \<open>CURRENT_LOCK_VERSION\<close>.\<close>

definition CURRENT_LOCK_VERSION :: rat where
  "CURRENT_LOCK_VERSION = 3"

definition cli_readSkillLock :: "json_parse \<Rightarrow> lock_file_on_disk \<Rightarrow> json" where
  "cli_readSkillLock parse disk =
     (case disk of
        Unreadable \<Rightarrow> empty_lock CURRENT_LOCK_VERSION
      | Content content \<Rightarrow>
          (case parse content of
             None \<Rightarrow> empty_lock CURRENT_LOCK_VERSION
           | Some parsed \<Rightarrow> guard_version CURRENT_LOCK_VERSION parsed))"

text \<open>\<open>Object.keys(lock.skills)\<close>: the tracked skills of a lock as read.\<close>

definition tracked_skills :: "json \<Rightarrow> string list" where
  "tracked_skills lock =
     (case property ''skills'' lock of
        Returned (Some (JObject props)) \<Rightarrow> map fst props
      | other \<Rightarrow> [])"

text \<open>
  The words of C3: the version tag of a stored document is absent, is not a number, or
  is a number strictly below 3.
\<close>

definition version_tag :: "json \<Rightarrow> json option" where
  "version_tag doc = (case doc of JObject props \<Rightarrow> map_of props ''version'' | other \<Rightarrow> None)"

definition outdated :: "json \<Rightarrow> bool" where
  "outdated doc =
     (case version_tag doc of
        None \<Rightarrow> True
      | Some (JNumber v) \<Rightarrow> js_less v 3
      | Some other \<Rightarrow> True)"

text \<open>Two stored documents, one of version 1 and one without a version, and a parser.\<close>

definition stored_entry :: json where
  "stored_entry = JObject [(''source'', JString ''o/r''), (''sourceType'', JString ''github'')]"

definition version1_doc :: json where
  "version1_doc = JObject [(''version'', JNumber (Num 1)), (''skills'', JObject [(''a'', stored_entry)])]"

definition unversioned_doc :: json where
  "unversioned_doc = JObject [(''skills'', JObject [(''a'', stored_entry)])]"

definition version3_doc :: json where
  "version3_doc = JObject [(''version'', JNumber (Num 3)), (''skills'', JObject [(''a'', stored_entry)])]"

definition parse_docs :: json_parse where
  "parse_docs content =
     (if content = ''v1'' then Some version1_doc
      else if content = ''none'' then Some unversioned_doc
      else if content = ''v3'' then Some version3_doc
      else None)"

section \<open>skill-lock.ts: addSkillToLock\<close>

text \<open>
  \<open>lock.skills\<close> is a plain JavaScript object, made by \<open>JSON.parse\<close> or by the literal
  \<open>{}\<close>, so its prototype is \<open>Object.prototype\<close>. The pairs of the association list
  are its own properties. A read \<open>lock.skills[skillName]\<close> of a name that is no own
  property goes to the prototype, which has the members listed here.
\<close>

definition Object_prototype_names :: "string list" where
  "Object_prototype_names =
     [''constructor'', ''__defineGetter__'', ''__defineSetter__'', ''hasOwnProperty'',
      ''__lookupGetter__'', ''__lookupSetter__'', ''isPrototypeOf'', ''propertyIsEnumerable'',
      ''toString'', ''valueOf'', ''__proto__'', ''toLocaleString'']"

text \<open>
  The value of \<open>lock.skills[skillName]\<close>: the entry of an own property, a member of
  \<open>Object.prototype\<close> (a function, or the prototype itself for \<open>__proto__\<close>), or
  \<open>undefined\<close>.
\<close>

datatype skill_slot =
    OwnEntry SkillLockEntry
  | InheritedMember
  | NoValue

definition read_slot :: "(string \<times> SkillLockEntry) list \<Rightarrow> string \<Rightarrow> skill_slot" where
  "read_slot props skillName =
     (case map_of props skillName of
        Some existing \<Rightarrow> OwnEntry existing
      | None \<Rightarrow> if skillName \<in> set Object_prototype_names then InheritedMember else NoValue)"

text \<open>
  The assignment \<open>lock.skills[skillName] = value\<close>. An own property is replaced in
  place. A name that is no own property becomes a new own property, with one
  exception: \<open>__proto__\<close> is an accessor of \<open>Object.prototype\<close>, so the assignment
  calls its setter, which makes \<open>value\<close> the prototype of \<open>lock.skills\<close> and adds no own
  property. (\<open>JSON.parse\<close> defines an own property for a key \<open>__proto__\<close> of the file,
  and then the assignment replaces it like any other.) A new key is appended to the
  list; JavaScript lists integer-like keys first, which no statement below depends on.
\<close>

definition write_slot ::
  "string \<Rightarrow> SkillLockEntry \<Rightarrow> (string \<times> SkillLockEntry) list \<Rightarrow> (string \<times> SkillLockEntry) list" where
  "write_slot skillName v props =
     (if skillName = ''__proto__'' \<and> map_of props skillName = None then props
      else AList.update skillName v props)"

text \<open>
  \<open>addSkillToLock(skillName, entry)\<close>. The arguments \<open>now\<close> and \<open>lock\<close> are the two
  things the function reads from outside: the clock (\<open>new Date().toISOString()\<close>) and
  the lock as \<open>readSkillLock()\<close> returns it, typed by \<open>SkillLockFile\<close>. The result is
  the lock that \<open>writeSkillLock\<close> writes: \<open>JSON.stringify\<close> writes the own properties
  of \<open>lock.skills\<close> and nothing of its prototype. In
  \<open>existingEntry?.installedAt ?? now\<close> a member of \<open>Object.prototype\<close> has no
  \<open>installedAt\<close>, so it gives \<open>now\<close> like \<open>undefined\<close>.
\<close>

definition addSkillToLock ::
  "string \<Rightarrow> SkillLockFile \<Rightarrow> string \<Rightarrow> SkillLockSource \<Rightarrow> SkillLockFile" where
  "addSkillToLock now lock skillName entry =
     (let existingEntry = read_slot (skills lock) skillName
      in lock\<lparr>skills :=
           write_slot skillName
             \<lparr>source = source entry, sourceType = sourceType entry,
              sourceUrl = sourceUrl entry, skillPath = skillPath entry,
              skillFolderHash = skillFolderHash entry,
              installedAt = (case existingEntry of
                               OwnEntry existing \<Rightarrow> installedAt existing
                             | InheritedMember \<Rightarrow> now
                             | NoValue \<Rightarrow> now),
              updatedAt = now\<rparr>
             (skills lock)\<rparr>)"

text \<open>
  \<open>getSkillFromLock\<close> on a lock as read: \<open>lock.skills[skillName] ?? null\<close>, where
  \<open>NoValue\<close> stands for the \<open>null\<close> returned.
\<close>

definition getSkillFromLock :: "SkillLockFile \<Rightarrow> string \<Rightarrow> skill_slot" where
  "getSkillFromLock lock skillName = read_slot (skills lock) skillName"

text \<open>What a reinstall of the skill of \<open>abc_lock\<close> records.\<close>

definition def_source :: SkillLockSource where
  "def_source =
     \<lparr>source = ''o/r'', sourceType = ''github'', sourceUrl = ''https://github.com/o/r.git'',
      skillPath = Some ''skills/a/SKILL.md'', skillFolderHash = ''def''\<rparr>"

section \<open>add.ts: the selection of skills in runAdd\<close>

text \<open>\<open>interface Skill\<close> (types.ts), without its optional \<open>metadata\<close>.\<close>

record Skill =
  name :: string
  description :: string
  path :: string

text \<open>
  \<open>interface AddOptions\<close>. An optional flag that is \<open>undefined\<close> is \<open>False\<close>; the
  optional array \<open>skill\<close> is an option.
\<close>

record AddOptions =
  yes :: bool
  skill :: "string list option"
  list_only :: bool
  all_flag :: bool
  fullDepth :: bool
  targetDir :: "string option"

text \<open>\<open>if (options.all) { options.skill = ['*']; options.yes = true; }\<close>.\<close>

definition all_implies :: "AddOptions \<Rightarrow> AddOptions" where
  "all_implies options =
     (if all_flag options then options\<lparr>skill := Some [''*''], yes := True\<rparr> else options)"

text \<open>
  The skill filter of the parsed source (\<open>owner/repo@name\<close>) is added to
  \<open>options.skill\<close> unless it is there already.
\<close>

definition merge_skillFilter :: "string option \<Rightarrow> AddOptions \<Rightarrow> AddOptions" where
  "merge_skillFilter skillFilter options =
     (if truthy skillFilter
      then let names = (case skill options of Some given \<Rightarrow> given | None \<Rightarrow> [])
           in if the skillFilter \<in> set names then options\<lparr>skill := Some names\<rparr>
              else options\<lparr>skill := Some (names @ [the skillFilter])\<rparr>
      else options)"

text \<open>
  How the selection ends: with the skills to install, with \<open>process.exit(1)\<close> after
  the names of the available skills are printed, or with \<open>process.exit(0)\<close> when the
  prompt is cancelled.
\<close>

datatype selection =
    Selected "Skill list"
  | NoMatchingSkills "string list"
  | Cancelled

fun exit_status :: "selection \<Rightarrow> int option" where
  "exit_status (Selected chosen) = None"
| "exit_status (NoMatchingSkills available) = Some 1"
| "exit_status Cancelled = Some 0"

text \<open>
  The chain of \<open>if\<close> that sets \<open>selectedSkills\<close>. \<open>filterSkills\<close> and
  \<open>getSkillDisplayName\<close> (skills.ts) and the prompt \<open>p.multiselect\<close> are parameters;
  the prompt answers \<open>None\<close> when it is cancelled.
\<close>

definition includes_star :: "string list option \<Rightarrow> bool" where
  "includes_star names = (case names of Some given \<Rightarrow> ''*'' \<in> set given | None \<Rightarrow> False)"

definition has_names :: "string list option \<Rightarrow> bool" where
  "has_names names = (case names of Some given \<Rightarrow> length given > 0 | None \<Rightarrow> False)"

definition select_skills ::
  "(Skill list \<Rightarrow> string list \<Rightarrow> Skill list) \<Rightarrow> (Skill \<Rightarrow> string) \<Rightarrow>
   (Skill list \<Rightarrow> Skill list option) \<Rightarrow> AddOptions \<Rightarrow> Skill list \<Rightarrow> selection" where
  "select_skills filterSkills getSkillDisplayName multiselect options discovered =
     (if includes_star (skill options) then Selected discovered
      else if has_names (skill options)
      then let selectedSkills = filterSkills discovered (the (skill options))
           in if length selectedSkills = 0
              then NoMatchingSkills (map getSkillDisplayName discovered)
              else Selected selectedSkills
      else if length discovered = 1 then Selected discovered
      else if yes options then Selected discovered
      else case multiselect discovered of
             None \<Rightarrow> Cancelled
           | Some chosen \<Rightarrow> Selected chosen)"

text \<open>Inputs of the examples: three skills, a filter by name, a prompt that picks the first.\<close>

definition skill_named :: "string \<Rightarrow> Skill" where
  "skill_named n = \<lparr>name = n, description = ''d'', path = ''/src/'' @ n\<rparr>"

definition by_name :: "Skill list \<Rightarrow> string list \<Rightarrow> Skill list" where
  "by_name discovered names = filter (\<lambda>s. name s \<in> set names) discovered"

definition pick_first :: "Skill list \<Rightarrow> Skill list option" where
  "pick_first discovered = Some (take 1 discovered)"

definition plain_options :: AddOptions where
  "plain_options =
     \<lparr>yes = False, skill = None, list_only = False, all_flag = False, fullDepth = False,
      targetDir = None\<rparr>"

section \<open>installer.ts: the copy of a skill directory\<close>

text \<open>
  A directory entry as \<open>readdir(src, { withFileTypes: true })\<close> gives it: a file with
  its content, a directory with its entries, or a symbolic link with the node it
  resolves to. \<open>entry.isDirectory()\<close> is true for a directory only; it is false for a
  symbolic link, also when the link points to a directory.
\<close>

datatype fsnode =
    File string string
  | Dir string "fsnode list"
  | Symlink string fsnode

fun node_name :: "fsnode \<Rightarrow> string" where
  "node_name (File n content) = n"
| "node_name (Dir n entries) = n"
| "node_name (Symlink n target) = n"

fun isDirectory :: "fsnode \<Rightarrow> bool" where
  "isDirectory (Dir n entries) = True"
| "isDirectory other = False"

definition EXCLUDE_FILES :: "string set" where
  "EXCLUDE_FILES = {''README.md'', ''metadata.json''}"

definition EXCLUDE_DIRS :: "string set" where
  "EXCLUDE_DIRS = {''.git''}"

definition isExcluded :: "string \<Rightarrow> bool \<Rightarrow> bool" where
  "isExcluded n is_directory =
     (if n \<in> EXCLUDE_FILES then True
      else if startsWith n ''_'' then True
      else if is_directory \<and> n \<in> EXCLUDE_DIRS then True
      else False)"

text \<open>
  \<open>cp(srcPath, destPath, { dereference: true, recursive: true })\<close> writes under the
  name of the destination what the source resolves to: symbolic links are followed
  and a directory is copied whole.
\<close>

fun cp_dereference :: "string \<Rightarrow> fsnode \<Rightarrow> fsnode" where
  "cp_dereference n (File old content) = File n content"
| "cp_dereference n (Dir old entries) =
     Dir n (map (\<lambda>entry. cp_dereference (node_name entry) entry) entries)"
| "cp_dereference n (Symlink old target) = cp_dereference n target"

text \<open>
  \<open>copyDirectory(src, dest)\<close>: from the entries of \<open>src\<close> to the entries written to
  the new directory \<open>dest\<close>. The copies run under \<open>Promise.all\<close>; their results do not
  depend on one another.
\<close>

fun copyDirectory :: "fsnode list \<Rightarrow> fsnode list" where
  "copyDirectory [] = []"
| "copyDirectory (entry # entries) =
     (if isExcluded (node_name entry) (isDirectory entry) then copyDirectory entries
      else (case entry of
              Dir n children \<Rightarrow> Dir n (copyDirectory children)
            | other \<Rightarrow> cp_dereference (node_name other) other) # copyDirectory entries)"

text \<open>Every node of a tree: the entries, and the entries below them.\<close>

fun nodes_below :: "fsnode \<Rightarrow> fsnode list" where
  "nodes_below (File n content) = [File n content]"
| "nodes_below (Dir n entries) = Dir n entries # concat (map nodes_below entries)"
| "nodes_below (Symlink n target) = Symlink n target # nodes_below target"

definition all_nodes :: "fsnode list \<Rightarrow> fsnode list" where
  "all_nodes entries = concat (map nodes_below entries)"

fun is_symlink :: "fsnode \<Rightarrow> bool" where
  "is_symlink (Symlink n target) = True"
| "is_symlink other = False"

text \<open>A source tree with a file named \<open>.git\<close>, and one with a directory \<open>README.md\<close>.\<close>

definition gitfile_source :: "fsnode list" where
  "gitfile_source =
     [File ''SKILL.md'' ''skill'', File ''.git'' ''gitdir: ../.git/modules/a'',
      File ''README.md'' ''readme'',
      Dir ''docs'' [File ''README.md'' ''readme'', File ''_draft.md'' ''d'', File ''use.md'' ''u'',
                   Dir ''.git'' [File ''HEAD'' ''ref'']]]"

definition readme_dir_source :: "fsnode list" where
  "readme_dir_source = [File ''SKILL.md'' ''skill'', Dir ''README.md'' [File ''notes'' ''n'']]"

text \<open>
  The node at the end of a chain of symbolic links, used to say what a link is copied
  as: a link to a file as that file, a link to a directory as that directory.
\<close>

fun link_target :: "fsnode \<Rightarrow> fsnode" where
  "link_target (Symlink n target) = link_target target"
| "link_target other = other"

text \<open>
  A source tree with two symbolic links: one to a directory that holds a \<open>README.md\<close>,
  one to a file.
\<close>

definition linked_source :: "fsnode list" where
  "linked_source =
     [File ''SKILL.md'' ''skill'',
      Symlink ''shared'' (Dir ''common'' [File ''README.md'' ''readme'', File ''lib.md'' ''l'']),
      Symlink ''LICENSE'' (File ''LICENSE.txt'' ''mit'')]"

section \<open>installer.ts: paths\<close>

text \<open>
  The functions of Node's \<open>path\<close> module that the installer calls, on a POSIX system
  (\<open>sep\<close> is a slash), as Node implements them. A path is split at its slashes; the
  segments \<open>.\<close> and the empty segments go, and a segment \<open>..\<close> takes the segment before
  it away, or stays when there is none and the path is relative.
\<close>

definition sep :: string where
  "sep = ''/''"

fun split_slash :: "string \<Rightarrow> string list" where
  "split_slash [] = [[]]"
| "split_slash (c # cs) =
     (if c = CHR ''/'' then [] # split_slash cs
      else (case split_slash cs of
              [] \<Rightarrow> [[c]]
            | segment # segments \<Rightarrow> (c # segment) # segments))"

fun join_slash :: "string list \<Rightarrow> string" where
  "join_slash [] = []"
| "join_slash [segment] = segment"
| "join_slash (segment # segments) = segment @ ''/'' @ join_slash segments"

text \<open>\<open>normalizeString(path, allowAboveRoot)\<close>, on the segments.\<close>

fun normalize_segments :: "bool \<Rightarrow> string list \<Rightarrow> string list \<Rightarrow> string list" where
  "normalize_segments allowAboveRoot res [] = res"
| "normalize_segments allowAboveRoot res (segment # segments) =
     (if segment = [] \<or> segment = ''.'' then normalize_segments allowAboveRoot res segments
      else if segment = ''..''
      then (if res \<noteq> [] \<and> last res \<noteq> ''..''
            then normalize_segments allowAboveRoot (butlast res) segments
            else if allowAboveRoot
            then normalize_segments allowAboveRoot (res @ [''..'']) segments
            else normalize_segments allowAboveRoot res segments)
      else normalize_segments allowAboveRoot (res @ [segment]) segments)"

definition normalizeString :: "string \<Rightarrow> bool \<Rightarrow> string" where
  "normalizeString p allowAboveRoot =
     join_slash (normalize_segments allowAboveRoot [] (split_slash p))"

definition isAbsolute :: "string \<Rightarrow> bool" where
  "isAbsolute p = startsWith p ''/''"

definition normalize :: "string \<Rightarrow> string" where
  "normalize p =
     (if p = [] then ''.''
      else let trailingSeparator = endsWith p ''/'';
               body = normalizeString p (\<not> isAbsolute p)
           in if body = []
              then (if isAbsolute p then ''/'' else if trailingSeparator then ''./'' else ''.'')
              else (if isAbsolute p then ''/'' else []) @ body @
                   (if trailingSeparator then ''/'' else []))"

text \<open>\<open>join(a, b)\<close>: the arguments that are not empty, joined by a slash and normalized.\<close>

definition join_path :: "string \<Rightarrow> string \<Rightarrow> string" where
  "join_path a b =
     (if a = [] \<and> b = [] then ''.''
      else if a = [] then normalize b
      else if b = [] then normalize a
      else normalize (a @ ''/'' @ b))"

text \<open>
  \<open>resolve(p)\<close>, for the working directory \<open>cwd\<close> of the process: \<open>p\<close> when it is
  absolute, \<open>cwd/p\<close> otherwise, normalized and without a trailing slash.
\<close>

definition resolve :: "string \<Rightarrow> string \<Rightarrow> string" where
  "resolve cwd p =
     (let step1 = (if p = [] then [] else p @ ''/'');
          absolute1 = (p \<noteq> [] \<and> isAbsolute p);
          step2 = (if absolute1 \<or> cwd = [] then step1 else cwd @ ''/'' @ step1);
          absolute2 = (absolute1 \<or> (cwd \<noteq> [] \<and> isAbsolute cwd));
          body = normalizeString step2 (\<not> absolute2)
      in if absolute2 then ''/'' @ body
         else if body \<noteq> [] then body else ''.'')"

text \<open>\<open>basename(p)\<close>: the last segment, trailing slashes apart.\<close>

definition basename :: "string \<Rightarrow> string" where
  "basename p =
     rev (takeWhile (\<lambda>c. c \<noteq> CHR ''/'') (dropWhile (\<lambda>c. c = CHR ''/'') (rev p)))"


text \<open>\<open>isPathSafe(basePath, targetPath)\<close>.\<close>

definition isPathSafe :: "string \<Rightarrow> string \<Rightarrow> string \<Rightarrow> bool" where
  "isPathSafe cwd basePath targetPath =
     (let normalizedBase = normalize (resolve cwd basePath);
          normalizedTarget = normalize (resolve cwd targetPath)
      in startsWith normalizedTarget (normalizedBase @ sep) \<or> normalizedTarget = normalizedBase)"

text \<open>
  Where a path leads, said without the functions above: the list of the names of the
  directories passed on the way from the root. An empty segment and a segment \<open>.\<close>
  stay where they are, a segment \<open>..\<close> goes up one directory (and stays at the root),
  any other segment goes down into the directory of that name. A relative path starts
  from the working directory. Symbolic links are not followed, as in \<open>resolve\<close>.
\<close>

fun walk :: "string list \<Rightarrow> string list \<Rightarrow> string list" where
  "walk here [] = here"
| "walk here (segment # segments) =
     (if segment = [] \<or> segment = ''.'' then walk here segments
      else if segment = ''..'' then walk (butlast here) segments
      else walk (here @ [segment]) segments)"



text \<open>A name of a directory entry: not empty, not \<open>.\<close> or \<open>..\<close>, and without a slash.\<close>

definition entry_name :: "string \<Rightarrow> bool" where
  "entry_name s = (s \<noteq> [] \<and> s \<noteq> ''.'' \<and> s \<noteq> ''..'' \<and> CHR ''/'' \<notin> set s)"
section \<open>installer.ts: installSkill, installRemoteSkill, installWellKnownSkill\<close>

text \<open>
  What an install does to the file system, in order: \<open>rm(path, { recursive: true,
  force: true })\<close>, \<open>mkdir(path, { recursive: true })\<close>, \<open>writeFile(path, content)\<close>,
  and the copy of a source directory, with the entries it writes.
\<close>

datatype fs_op =
    Rm string
  | Mkdir string
  | WriteFile string string
  | CopyInto string "fsnode list"

text \<open>
  What the functions read from outside: the working directory of the process, the
  entries of a source directory, and whether a file system call throws, with the
  message of the error.
\<close>

record install_env =
  env_cwd :: string
  env_readdir :: "string \<Rightarrow> fsnode list"
  env_fs_error :: "fs_op \<Rightarrow> string option"

text \<open>
  The body of a \<open>try\<close> block: the calls run in order up to the first that throws.
  An error of \<open>rm\<close> is caught inside \<open>cleanAndCreateDirectory\<close> and ignored.
\<close>

fun attempt :: "(fs_op \<Rightarrow> string option) \<Rightarrow> fs_op list \<Rightarrow> fs_op list \<times> string option" where
  "attempt fs_error [] = ([], None)"
| "attempt fs_error (Rm p # ops) =
     (case attempt fs_error ops of (done, thrown) \<Rightarrow> (Rm p # done, thrown))"
| "attempt fs_error (op # ops) =
     (case fs_error op of
        Some message \<Rightarrow> ([], Some message)
      | None \<Rightarrow> (case attempt fs_error ops of (done, thrown) \<Rightarrow> (op # done, thrown)))"

definition cleanAndCreateDirectory :: "string \<Rightarrow> fs_op list" where
  "cleanAndCreateDirectory p = [Rm p, Mkdir p]"

record InstallResult =
  success :: bool
  installed_path :: string
  error :: "string option"

definition traversal_error :: string where
  "traversal_error = ''Invalid skill name: potential path traversal detected''"

text \<open>The two \<open>return\<close> statements after the \<open>try\<close> block and in its \<open>catch\<close>.\<close>

definition finish :: "string \<Rightarrow> fs_op list \<times> string option \<Rightarrow> InstallResult \<times> fs_op list" where
  "finish installDir outcome =
     (case outcome of
        (done, None) \<Rightarrow> (\<lparr>success = True, installed_path = installDir, error = None\<rparr>, done)
      | (done, Some message) \<Rightarrow>
          (\<lparr>success = False, installed_path = installDir, error = Some message\<rparr>, done))"

definition installSkill :: "install_env \<Rightarrow> Skill \<Rightarrow> string \<Rightarrow> InstallResult \<times> fs_op list" where
  "installSkill env skill_to_install target =
     (let rawSkillName = (if name skill_to_install \<noteq> [] then name skill_to_install
                          else basename (path skill_to_install));
          skillName = sanitizeName rawSkillName;
          installDir = join_path target skillName
      in if \<not> isPathSafe (env_cwd env) target installDir
         then (\<lparr>success = False, installed_path = installDir, error = Some traversal_error\<rparr>, [])
         else finish installDir
                (attempt (env_fs_error env)
                   (cleanAndCreateDirectory installDir @
                    [CopyInto installDir (copyDirectory (env_readdir env (path skill_to_install)))])))"

text \<open>
  The fields of \<open>RemoteSkill\<close> and of \<open>WellKnownSkill\<close> that the installer reads;
  \<open>files\<close> is a \<open>Map\<close> from relative path to content, in insertion order.
\<close>

record InstallName =
  installName :: string

record RemoteSkill = InstallName +
  content :: string





text \<open>
  Inputs of the examples: a file system without errors, a skill of a well-known
  endpoint with a file path that leaves its directory, and a skill directory.
\<close>

definition quiet_env :: install_env where
  "quiet_env =
     \<lparr>env_cwd = ''/home/u'', env_readdir = (\<lambda>p. gitfile_source), env_fs_error = (\<lambda>op. None)\<rparr>"



definition local_skill :: Skill where
  "local_skill = \<lparr>name = ''My Cool Skill!'', description = ''d'', path = ''/src/cool''\<rparr>"

text \<open>The files written by a sequence of file system calls, in order.\<close>

fun writes_of :: "fs_op list \<Rightarrow> (string \<times> string) list" where
  "writes_of [] = []"
| "writes_of (WriteFile p body # ops) = (p, body) # writes_of ops"
| "writes_of (op # ops) = writes_of ops"

section \<open>Properties of the string operations\<close>

lemma drop_prefix_Some: "drop_prefix p s = Some r \<longleftrightarrow> s = p @ r"
  by (induction p s rule: drop_prefix.induct) auto

lemma without_suffix_slice:
  "without_suffix suf s = (if endsWith s suf then slice_end (length suf) s else s)"
proof (cases "drop_prefix (rev suf) (rev s)")
  case None
  have "\<not> endsWith s suf"
  proof
    assume "endsWith s suf"
    then have "s = take (length s - length suf) s @ suf"
      by (metis append_take_drop_id endsWith_def)
    then have "rev s = rev suf @ rev (take (length s - length suf) s)"
      by (metis rev_append)
    then have "drop_prefix (rev suf) (rev s) = Some (rev (take (length s - length suf) s))"
      by (simp only: drop_prefix_Some)
    with None show False by simp
  qed
  with None show ?thesis
    by (simp add: without_suffix_def)
next
  case (Some r)
  then have "rev s = rev suf @ r"
    by (simp only: drop_prefix_Some)
  then have "rev (rev s) = rev (rev suf @ r)"
    by simp
  then have s: "s = rev r @ suf"
    by simp
  then have "endsWith s suf" and "slice_end (length suf) s = rev r"
    by (simp_all add: endsWith_def slice_end_def)
  with Some show ?thesis
    by (simp add: without_suffix_def)
qed

lemma without_suffix_constants:
  "without_suffix ''.git'' s = (if endsWith s ''.git'' then slice_end 4 s else s)"
  "without_suffix ''/'' s = (if endsWith s ''/'' then slice_end 1 s else s)"
  "without_suffix ''SKILL.md'' s = (if endsWith s ''SKILL.md'' then slice_end 8 s else s)"
  "without_suffix ''/SKILL.md'' s = (if endsWith s ''/SKILL.md'' then slice_end 9 s else s)"
  by (simp_all add: without_suffix_slice eval_nat_numeral)

lemma endsWith_iff: "endsWith s suf \<longleftrightarrow> (\<exists>q. s = q @ suf)"
proof
  assume "endsWith s suf"
  then have "s = take (length s - length suf) s @ suf"
    by (metis append_take_drop_id endsWith_def)
  then show "\<exists>q. s = q @ suf" ..
next
  assume "\<exists>q. s = q @ suf"
  then show "endsWith s suf"
    by (auto simp: endsWith_def)
qed

lemma without_suffix_append: "without_suffix suf (q @ suf) = q"
  by (simp add: without_suffix_slice endsWith_def slice_end_def)

lemma without_suffix_other: "\<not> endsWith s suf \<Longrightarrow> without_suffix suf s = s"
  by (simp add: without_suffix_slice)

lemma described_folder_literal:
  assumes "\<not> endsWith p ''//SKILL.md''"
  shows "described_folder p = literal_folder p"
proof (cases "endsWith p ''/SKILL.md''")
  case False
  then show ?thesis
    by (simp add: described_folder_def literal_folder_def)
next
  case True
  then obtain q where p: "p = q @ ''/SKILL.md''"
    by (auto simp: endsWith_iff)
  have "\<not> endsWith q ''/''"
  proof
    assume "endsWith q ''/''"
    then obtain r where "q = r @ ''/''"
      by (auto simp: endsWith_iff)
    with p have "p = r @ ''//SKILL.md''"
      by simp
    with assms show False
      by (auto simp: endsWith_iff)
  qed
  then have d: "without_suffix ''/'' q = q"
    by (rule without_suffix_other)
  from p have "p = (q @ ''/'') @ ''SKILL.md''"
    by simp
  then have "without_suffix ''SKILL.md'' p = q @ ''/''"
    by (simp only: without_suffix_append)
  then have l: "literal_folder p = q"
    by (simp add: literal_folder_def without_suffix_append)
  from True p have "described_folder p = without_suffix ''/'' q"
    by (simp add: described_folder_def without_suffix_append)
  with d l show ?thesis
    by simp
qed

section \<open>Properties of sanitizeName\<close>

lemma replace_disallowed_chars: "c \<in> set (replace_disallowed s) \<Longrightarrow> name_char c"
proof (induction s rule: replace_disallowed.induct)
  case 1
  then show ?case by simp
next
  case (2 d ds)
  then show ?case by (auto simp: name_char_def split: if_splits)
qed

lemma strip_separators_subset: "set (strip_separators s) \<subseteq> set s"
proof
  fix c
  assume "c \<in> set (strip_separators s)"
  then have "c \<in> set (dropWhile separator_char (rev (dropWhile separator_char s)))"
    by (simp add: strip_separators_def)
  then have "c \<in> set (rev (dropWhile separator_char s))"
    by (rule set_dropWhileD)
  then have "c \<in> set (dropWhile separator_char s)"
    by simp
  then show "c \<in> set s"
    by (rule set_dropWhileD)
qed

lemma rev_dropWhile_rev_prefix: "\<exists>zs. xs = rev (dropWhile P (rev xs)) @ zs"
proof -
  have "rev (dropWhile P (rev xs)) @ rev (takeWhile P (rev xs)) =
        rev (takeWhile P (rev xs) @ dropWhile P (rev xs))"
    by (simp only: rev_append)
  also have "\<dots> = xs"
    by simp
  finally have "xs = rev (dropWhile P (rev xs)) @ rev (takeWhile P (rev xs))"
    by (rule sym)
  then show ?thesis ..
qed

lemma strip_separators_hd:
  assumes "strip_separators s \<noteq> []"
  shows "\<not> separator_char (hd (strip_separators s))"
proof -
  let ?t = "dropWhile separator_char s"
  obtain zs where t: "?t = strip_separators s @ zs"
    using rev_dropWhile_rev_prefix [of ?t separator_char]
    by (auto simp: strip_separators_def)
  with assms have ne: "?t \<noteq> []" by auto
  from t assms have "hd (strip_separators s) = hd ?t"
    by (metis hd_append2)
  moreover from ne have "\<not> separator_char (hd ?t)"
    by (rule hd_dropWhile)
  ultimately show ?thesis by simp
qed

lemma strip_separators_last:
  assumes "strip_separators s \<noteq> []"
  shows "\<not> separator_char (last (strip_separators s))"
proof -
  let ?u = "dropWhile separator_char (rev (dropWhile separator_char s))"
  from assms have ne: "?u \<noteq> []"
    by (simp add: strip_separators_def)
  then have "\<not> separator_char (hd ?u)"
    by (rule hd_dropWhile)
  moreover from ne have "last (rev ?u) = hd ?u"
    by (simp add: last_rev)
  ultimately show ?thesis
    by (simp add: strip_separators_def)
qed

lemma sanitized_with_chars: "c \<in> set (sanitized_with lower raw) \<Longrightarrow> name_char c"
  using strip_separators_subset [of "replace_disallowed (lower raw)"]
  by (auto simp: sanitized_with_def intro: replace_disallowed_chars)

lemma placeholder_chars: "c \<in> set ''unnamed-skill'' \<Longrightarrow> name_char c"
  by (auto simp: name_char_def allowed_char_def)

text \<open>
  What \<open>sanitizeName\<close> keeps of claim C5 on every input, for every lowercasing
  function: the result is a non-empty name of at most 255 characters, each a lowercase
  letter, a digit, a dot, an underscore or a hyphen, that does not start with a dot or a
  hyphen; it does not end with one either when the sanitized name is at most 255
  characters long before the cut; and when nothing is left after sanitization the result
  is the placeholder \<open>unnamed-skill\<close>.
\<close>

theorem sanitizeName_shape:
  "(\<forall>c \<in> set (sanitizeName_with lower raw). name_char c) \<and>
   length (sanitizeName_with lower raw) \<le> 255 \<and>
   sanitizeName_with lower raw \<noteq> [] \<and>
   \<not> separator_char (hd (sanitizeName_with lower raw)) \<and>
   (length (sanitized_with lower raw) \<le> 255 \<longrightarrow>
      \<not> separator_char (last (sanitizeName_with lower raw))) \<and>
   (sanitized_with lower raw = [] \<longrightarrow> sanitizeName_with lower raw = ''unnamed-skill'')"
proof (cases "sanitized_with lower raw = []")
  case True
  then have r: "sanitizeName_with lower raw = ''unnamed-skill''"
    by (simp add: sanitizeName_with_def)
  have "\<forall>c \<in> set ''unnamed-skill''. name_char c"
    using placeholder_chars by blast
  with r show ?thesis
    by (simp add: separator_char_def)
next
  case False
  let ?s = "sanitized_with lower raw"
  from False have r: "sanitizeName_with lower raw = take 255 ?s"
    by (simp add: sanitizeName_with_def)
  have chars: "\<forall>c \<in> set (take 255 ?s). name_char c"
    using sanitized_with_chars by (blast dest: in_set_takeD)
  from False have ne: "take 255 ?s \<noteq> []"
    by simp
  from False have "hd (take 255 ?s) = hd ?s"
    by (cases ?s) simp_all
  moreover from False have "\<not> separator_char (hd ?s)"
    unfolding sanitized_with_def by (rule strip_separators_hd)
  ultimately have first: "\<not> separator_char (hd (take 255 ?s))"
    by simp
  from False have "\<not> separator_char (last ?s)"
    unfolding sanitized_with_def by (rule strip_separators_last)
  then have final: "length ?s \<le> 255 \<longrightarrow> \<not> separator_char (last (take 255 ?s))"
    by simp
  from r chars ne first final False show ?thesis
    by simp
qed

theorem sanitizeName_shape_witness:
  "sanitized_with toLowerCase ''!!!'' = [] \<and>
   sanitizeName_with toLowerCase ''!!!'' = ''unnamed-skill'' \<and>
   length (sanitized_with toLowerCase ''My Cool Skill!'') \<le> 255 \<and>
   \<not> separator_char (last (sanitizeName_with toLowerCase ''My Cool Skill!'')) \<and>
   CHR ''m'' \<in> set (sanitizeName_with toLowerCase ''My Cool Skill!'') \<and>
   name_char CHR ''m''"
  using sanitizeName_shape [of toLowerCase "''!!!''"]
    sanitizeName_shape [of toLowerCase "''My Cool Skill!''"]
  by (simp add: sanitizeName_with_def sanitized_with_def strip_separators_def
      toLowerCase_def lower_char_def allowed_char_def separator_char_def name_char_def)

text \<open>
  Claim C5: for every input string \<open>sanitizeName\<close> returns a name of lowercase
  letters, digits, dots, underscores and hyphens, with no leading or trailing
  separator, of at most 255 characters. The code strips the leading and trailing
  separators before it cuts the name to 255 characters, so the cut can end on a
  separator: for 254 times \<open>a\<close> followed by \<open>-b\<close> the result is 254 times \<open>a\<close>
  followed by a hyphen.
\<close>

theorem sanitizeName_long_name_ends_with_separator:
  "length (replicate 254 CHR ''a'' @ ''-b'') = 256 \<and>
   sanitizeName (replicate 254 CHR ''a'' @ ''-b'') = replicate 254 CHR ''a'' @ ''-'' \<and>
   separator_char (last (sanitizeName (replicate 254 CHR ''a'' @ ''-b'')))"
  by code_simp

section \<open>Properties of fetchSkillFolderHash\<close>

lemma backslashes_to_slashes_slashed: "backslashes_to_slashes s = slashed s"
  by (induction s) (simp_all add: backslashes_to_slashes_def)

lemma folderPath_of_described: "folderPath_of p = described_folder (slashed p)"
  by (simp only: without_suffix_constants folderPath_of_def described_folder_def Let_def
      backslashes_to_slashes_slashed if_True if_False split: if_splits) simp

lemma slashed_plain: "CHR 0x5C \<notin> set p \<Longrightarrow> slashed p = p"
  by (induction p) auto

lemma find_folder_directory_hash:
  "map_option entry_sha (find_folder subpath entries) = directory_hash subpath entries"
  by (induction entries) (auto simp: find_folder_def directory_hash_def)

lemma listing_described:
  "http (trees_url ownerRepo branch) (authorization token) =
   described_listing http ownerRepo token branch"
  by (cases token) (simp_all add: described_listing_def trees_url_def authorization_def truthy_def)

lemma try_branch_described:
  "try_branches http ownerRepo subpath token (branch # rest) =
   (case described_on_branch http ownerRepo token subpath branch of
      Some h \<Rightarrow> Some h
    | None \<Rightarrow> try_branches http ownerRepo subpath token rest)"
proof (cases "described_listing http ownerRepo token branch")
  case None
  then show ?thesis
    by (simp add: listing_described described_on_branch_def)
next
  case (Some data)
  show ?thesis
  proof (cases "subpath = []")
    case True
    with Some show ?thesis
      by (simp add: listing_described described_on_branch_def)
  next
    case False
    have "directory_hash subpath (tree data) =
        map_option entry_sha (find_folder subpath (tree data))"
      by (rule sym) (rule find_folder_directory_hash)
    then have "(case find_folder subpath (tree data) of
             None \<Rightarrow> try_branches http ownerRepo subpath token rest
           | Some folderEntry \<Rightarrow> Some (entry_sha folderEntry)) =
          (case directory_hash subpath (tree data) of
             None \<Rightarrow> try_branches http ownerRepo subpath token rest
           | Some h \<Rightarrow> Some h)"
      by (cases "find_folder subpath (tree data)") simp_all
    with Some False show ?thesis
      by (simp add: listing_described described_on_branch_def)
  qed
qed

lemma fetchSkillFolderHash_described:
  "fetchSkillFolderHash http ownerRepo p token =
   described_fetch http ownerRepo token (described_folder (slashed p))"
  by (simp add: fetchSkillFolderHash_def branches_def try_branch_described described_fetch_def
      folderPath_of_described del: try_branches.simps(2) split: option.splits)

lemma directory_hash_entry:
  assumes "directory_hash subpath entries = Some h"
  shows "\<exists>before e after. entries = before @ e # after \<and>
    entry_path e = subpath \<and> entry_type e = ''tree'' \<and> entry_sha e = h \<and>
    (\<forall>x \<in> set before. \<not> (entry_path x = subpath \<and> entry_type x = ''tree''))"
proof -
  let ?P = "\<lambda>e. entry_path e = subpath \<and> entry_type e = ''tree''"
  from assms obtain e others where f: "filter ?P entries = e # others" and h: "entry_sha e = h"
    by (auto simp: directory_hash_def split: list.splits)
  from f obtain before after where "entries = before @ e # after"
    "\<forall>x \<in> set before. \<not> ?P x" "?P e"
    by (auto simp: filter_eq_Cons_iff)
  with h show ?thesis
    by blast
qed

lemma described_on_branch_entry:
  assumes "described_on_branch http ownerRepo token subpath branch = Some h"
  shows "\<exists>data. described_listing http ownerRepo token branch = Some data \<and>
     (if subpath = [] then h = root_sha data
      else \<exists>before e after. tree data = before @ e # after \<and>
             entry_path e = subpath \<and> entry_type e = ''tree'' \<and> entry_sha e = h \<and>
             (\<forall>x \<in> set before. \<not> (entry_path x = subpath \<and> entry_type x = ''tree'')))"
proof -
  from assms obtain data where d: "described_listing http ownerRepo token branch = Some data"
    by (auto simp: described_on_branch_def split: option.splits)
  show ?thesis
  proof (cases "subpath = []")
    case True
    with assms d show ?thesis
      by (simp add: described_on_branch_def)
  next
    case False
    with assms d have "directory_hash subpath (tree data) = Some h"
      by (simp add: described_on_branch_def)
    from directory_hash_entry [OF this] d False show ?thesis
      by simp
  qed
qed

text \<open>
  Claim C2, as amended. \<open>fetchSkillFolderHash\<close> asks for the recursive listing of
  \<open>main\<close> and then of \<open>master\<close>. The subpath is the skill path with its trailing
  \<open>SKILL.md\<close> and trailing slash removed (backslashes count as slashes, and \<open>/SKILL.md\<close>
  is removed as one suffix; for a path without backslashes that does not end with
  \<open>//SKILL.md\<close> this is the removal of \<open>SKILL.md\<close> and of a slash, word by word). With
  an empty subpath the result is the root hash of the first branch whose listing
  succeeds. Otherwise it is the hash of the first entry of the listing whose path is
  the subpath and whose type is \<open>tree\<close>, in the first branch whose listing succeeds
  and holds such an entry: a branch whose listing succeeds without such an entry is
  passed over and the next branch is asked. The result is null exactly when neither
  branch gives a result.
\<close>

theorem fetchSkillFolderHash_branch_order:
  "fetchSkillFolderHash http ownerRepo skill_path token =
     described_fetch http ownerRepo token (described_folder (slashed skill_path)) \<and>
   (CHR 0x5C \<notin> set skill_path \<and> \<not> endsWith skill_path ''//SKILL.md'' \<longrightarrow>
      fetchSkillFolderHash http ownerRepo skill_path token =
        described_fetch http ownerRepo token (literal_folder skill_path)) \<and>
   (fetchSkillFolderHash http ownerRepo skill_path token = None \<longleftrightarrow>
      described_on_branch http ownerRepo token (described_folder (slashed skill_path)) ''main''
        = None \<and>
      described_on_branch http ownerRepo token (described_folder (slashed skill_path)) ''master''
        = None) \<and>
   (\<forall>h. fetchSkillFolderHash http ownerRepo skill_path token = Some h \<longrightarrow>
      (\<exists>branch data. described_listing http ownerRepo token branch = Some data \<and>
         (branch = ''main'' \<or>
          branch = ''master'' \<and>
          described_on_branch http ownerRepo token (described_folder (slashed skill_path))
            ''main'' = None) \<and>
         (if described_folder (slashed skill_path) = [] then h = root_sha data
          else \<exists>before e after. tree data = before @ e # after \<and>
                 entry_path e = described_folder (slashed skill_path) \<and>
                 entry_type e = ''tree'' \<and> entry_sha e = h \<and>
                 (\<forall>x \<in> set before. \<not> (entry_path x = described_folder (slashed skill_path) \<and>
                                         entry_type x = ''tree'')))))"
proof -
  let ?sub = "described_folder (slashed skill_path)"
  note eq = fetchSkillFolderHash_described [of http ownerRepo skill_path token]
  have literal: "CHR 0x5C \<notin> set skill_path \<and> \<not> endsWith skill_path ''//SKILL.md'' \<longrightarrow>
      fetchSkillFolderHash http ownerRepo skill_path token =
        described_fetch http ownerRepo token (literal_folder skill_path)"
  proof
    assume "CHR 0x5C \<notin> set skill_path \<and> \<not> endsWith skill_path ''//SKILL.md''"
    then have "slashed skill_path = skill_path" and "\<not> endsWith skill_path ''//SKILL.md''"
      by (simp_all add: slashed_plain)
    then have "?sub = literal_folder skill_path"
      by (simp add: described_folder_literal)
    with eq show "fetchSkillFolderHash http ownerRepo skill_path token =
        described_fetch http ownerRepo token (literal_folder skill_path)"
      by simp
  qed
  have none: "fetchSkillFolderHash http ownerRepo skill_path token = None \<longleftrightarrow>
      described_on_branch http ownerRepo token ?sub ''main'' = None \<and>
      described_on_branch http ownerRepo token ?sub ''master'' = None"
    unfolding eq by (simp add: described_fetch_def split: option.splits)
  have some: "\<forall>h. fetchSkillFolderHash http ownerRepo skill_path token = Some h \<longrightarrow>
      (\<exists>branch data. described_listing http ownerRepo token branch = Some data \<and>
         (branch = ''main'' \<or>
          branch = ''master'' \<and> described_on_branch http ownerRepo token ?sub ''main'' = None) \<and>
         (if ?sub = [] then h = root_sha data
          else \<exists>before e after. tree data = before @ e # after \<and>
                 entry_path e = ?sub \<and> entry_type e = ''tree'' \<and> entry_sha e = h \<and>
                 (\<forall>x \<in> set before. \<not> (entry_path x = ?sub \<and> entry_type x = ''tree''))))"
  proof (intro allI impI)
    fix h
    assume "fetchSkillFolderHash http ownerRepo skill_path token = Some h"
    with eq have f: "described_fetch http ownerRepo token ?sub = Some h"
      by simp
    show "\<exists>branch data. described_listing http ownerRepo token branch = Some data \<and>
         (branch = ''main'' \<or>
          branch = ''master'' \<and> described_on_branch http ownerRepo token ?sub ''main'' = None) \<and>
         (if ?sub = [] then h = root_sha data
          else \<exists>before e after. tree data = before @ e # after \<and>
                 entry_path e = ?sub \<and> entry_type e = ''tree'' \<and> entry_sha e = h \<and>
                 (\<forall>x \<in> set before. \<not> (entry_path x = ?sub \<and> entry_type x = ''tree'')))"
    proof (cases "described_on_branch http ownerRepo token ?sub ''main''")
      case (Some h')
      with f have "described_on_branch http ownerRepo token ?sub ''main'' = Some h"
        by (simp add: described_fetch_def)
      from described_on_branch_entry [OF this] show ?thesis
        by blast
    next
      case None
      with f have "described_on_branch http ownerRepo token ?sub ''master'' = Some h"
        by (simp add: described_fetch_def)
      from described_on_branch_entry [OF this] None show ?thesis
        by blast
    qed
  qed
  from eq literal none some show ?thesis
    by (intro conjI)
qed

theorem fetchSkillFolderHash_branch_order_witness:
  "fetchSkillFolderHash two_branch_repo ''o/r'' ''skills/a/SKILL.md'' None = Some ''h'' \<and>
   CHR 0x5C \<notin> set ''skills/a/SKILL.md'' \<and> \<not> endsWith ''skills/a/SKILL.md'' ''//SKILL.md'' \<and>
   literal_folder ''skills/a/SKILL.md'' = ''skills/a'' \<and>
   described_on_branch two_branch_repo ''o/r'' None ''skills/a'' ''main'' = None \<and>
   described_on_branch two_branch_repo ''o/r'' None ''skills/a'' ''master'' = Some ''h'' \<and>
   fetchSkillFolderHash two_branch_repo ''o/r'' backslash_path None = Some ''h'' \<and>
   fetchSkillFolderHash two_branch_repo ''o/r'' ''skills/a/'' None = Some ''h'' \<and>
   fetchSkillFolderHash two_branch_repo ''o/r'' ''SKILL.md'' None = Some ''m'' \<and>
   fetchSkillFolderHash two_branch_repo ''o/r'' ''skills/b/SKILL.md'' None = None \<and>
   fetchSkillFolderHash two_branch_repo ''o/r'' ''skills/a/SKILL.md'' (Some ''tok'') = Some ''h''"
proof -
  have plain: "CHR 0x5C \<notin> set ''skills/a/SKILL.md''"
      "\<not> endsWith ''skills/a/SKILL.md'' ''//SKILL.md''"
    and folder: "literal_folder ''skills/a/SKILL.md'' = ''skills/a''"
    and on_main: "described_on_branch two_branch_repo ''o/r'' None ''skills/a'' ''main'' = None"
    and on_master: "described_on_branch two_branch_repo ''o/r'' None ''skills/a'' ''master'' =
      Some ''h''"
    and literal: "described_fetch two_branch_repo ''o/r'' None
      (literal_folder ''skills/a/SKILL.md'') = Some ''h''"
    and backslashes: "described_fetch two_branch_repo ''o/r'' None
      (described_folder (slashed backslash_path)) = Some ''h''"
    and trailing: "described_fetch two_branch_repo ''o/r'' None
      (described_folder (slashed ''skills/a/'')) = Some ''h''"
    and bare: "described_fetch two_branch_repo ''o/r'' None
      (described_folder (slashed ''SKILL.md'')) = Some ''m''"
    and blob: "described_fetch two_branch_repo ''o/r'' None
      (described_folder (slashed ''skills/b/SKILL.md'')) = None"
    and token: "described_fetch two_branch_repo ''o/r'' (Some ''tok'')
      (described_folder (slashed ''skills/a/SKILL.md'')) = Some ''h''"
    by code_simp+
  from plain have hyp: "CHR 0x5C \<notin> set ''skills/a/SKILL.md'' \<and>
      \<not> endsWith ''skills/a/SKILL.md'' ''//SKILL.md''" ..
  have a: "fetchSkillFolderHash two_branch_repo ''o/r'' ''skills/a/SKILL.md'' None = Some ''h''"
    by (rule trans [OF mp [OF conjunct1 [OF conjunct2 [OF fetchSkillFolderHash_branch_order]]
        hyp] literal])
  have b: "fetchSkillFolderHash two_branch_repo ''o/r'' backslash_path None = Some ''h''"
    by (rule trans [OF conjunct1 [OF fetchSkillFolderHash_branch_order] backslashes])
  have c: "fetchSkillFolderHash two_branch_repo ''o/r'' ''skills/a/'' None = Some ''h''"
    by (rule trans [OF conjunct1 [OF fetchSkillFolderHash_branch_order] trailing])
  have d: "fetchSkillFolderHash two_branch_repo ''o/r'' ''SKILL.md'' None = Some ''m''"
    by (rule trans [OF conjunct1 [OF fetchSkillFolderHash_branch_order] bare])
  have e: "fetchSkillFolderHash two_branch_repo ''o/r'' ''skills/b/SKILL.md'' None = None"
    by (rule trans [OF conjunct1 [OF fetchSkillFolderHash_branch_order] blob])
  have f: "fetchSkillFolderHash two_branch_repo ''o/r'' ''skills/a/SKILL.md'' (Some ''tok'') =
      Some ''h''"
    by (rule trans [OF conjunct1 [OF fetchSkillFolderHash_branch_order] token])
  from a plain folder on_main on_master b c d e f show ?thesis
    by (intro conjI)
qed

text \<open>
  Claim C2 as stated fails: the listing of \<open>main\<close>, the first branch, succeeds and has
  no directory entry for the folder, and the result is not null but the hash found
  on \<open>master\<close>.
\<close>

theorem fetchSkillFolderHash_falls_through_counterexample:
  "listing two_branch_repo ''o/r'' None ''main'' = Some \<lparr>root_sha = ''m'', tree = []\<rparr> \<and>
   find_folder (folderPath_of ''skills/a/SKILL.md'') [] = None \<and>
   fetchSkillFolderHash two_branch_repo ''o/r'' ''skills/a/SKILL.md'' None = Some ''h''"
  by code_simp

section \<open>Properties of the reinstall URL\<close>

lemma skillFolder_of_described: "skillFolder_of p = described_folder p"
  by (simp only: without_suffix_constants skillFolder_of_def described_folder_def Let_def
      if_True if_False split: if_splits) simp

lemma replace_ends_described:
  "replace_slash_end (replace_dot_git_end url) = described_base url"
  by (simp only: without_suffix_constants replace_slash_end_def replace_dot_git_end_def
      described_base_def)

lemma installUrl_of_described: "installUrl_of entry = described_installUrl entry"
  by (cases "skillPath entry")
    (simp_all add: installUrl_of_def described_installUrl_def described_installUrl_with_def
      truthy_def skillFolder_of_described replace_ends_described)

lemma installUrl_of_literal:
  assumes "\<forall>p. skillPath entry = Some p \<longrightarrow> \<not> endsWith p ''//SKILL.md''"
  shows "installUrl_of entry = literal_installUrl entry"
  using assms
  by (cases "skillPath entry")
    (simp_all add: installUrl_of_described described_installUrl_def literal_installUrl_def
      described_installUrl_with_def described_folder_literal)

text \<open>
  The two readings part on a path that ends with \<open>//SKILL.md\<close>. No such path is
  written to the lock file by \<open>add\<close>, which joins the segments of the folder with
  single slashes.
\<close>

lemma doubled_slash_readings:
  "described_folder ''a///SKILL.md'' = ''a/'' \<and> literal_folder ''a///SKILL.md'' = ''a//''"
  by code_simp
section \<open>Properties of runCheck and runUpdate\<close>

lemma members_Nil: "members [] = {}"
  by (simp add: members_def)

lemma members_Cons: "members ((s, g) # m) = ({s} \<times> set g) \<union> members m"
  by (simp add: members_def)

lemma members_absent: "map_of m s = None \<Longrightarrow> (s, x) \<notin> members m"
  by (induction m) (auto simp: members_Cons members_Nil split: if_splits)

lemma members_update:
  "distinct (map fst m) \<Longrightarrow>
   members (AList.update s ((case map_of m s of Some found \<Rightarrow> found | None \<Rightarrow> []) @ [x]) m) =
   insert (s, x) (members m)"
proof (induction m)
  case Nil
  then show ?case by (simp add: members_Cons members_Nil)
next
  case (Cons p m)
  obtain s' g where p: "p = (s', g)" by (cases p)
  show ?case
  proof (cases "s' = s")
    case True
    with Cons.prems p show ?thesis
      by (auto simp: members_Cons)
  next
    case False
    with Cons p show ?thesis
      by (auto simp: members_Cons)
  qed
qed

lemma collect_by_source_inv:
  "collect_by_source xs (m, k) = (m', k') \<Longrightarrow> distinct (map fst m) \<Longrightarrow>
   distinct (map fst m') \<and>
   k' = k + length (filter (\<lambda>(n, e). not_checkable e) xs) \<and>
   members m' = members m \<union> {(source e, (n, e)) | n e. (n, e) \<in> set xs \<and> \<not> not_checkable e}"
proof (induction xs arbitrary: m k)
  case Nil
  then show ?case by simp
next
  case (Cons x xs)
  obtain n e where x: "x = (n, e)" by (cases x)
  show ?case
  proof (cases "not_checkable e")
    case True
    with Cons.prems x have "collect_by_source xs (m, Suc k) = (m', k')"
      by simp
    from Cons.IH [OF this Cons.prems(2)] True x show ?thesis
      by auto
  next
    case False
    let ?m = "AList.update (source e)
       ((case map_of m (source e) of Some found \<Rightarrow> found | None \<Rightarrow> []) @ [(n, e)]) m"
    from Cons.prems x False have "collect_by_source xs (?m, k) = (m', k')"
      by (simp add: Let_def)
    moreover from Cons.prems(2) have "distinct (map fst ?m)"
      by (simp add: distinct_update)
    ultimately have "distinct (map fst m') \<and>
      k' = k + length (filter (\<lambda>(n, e). not_checkable e) xs) \<and>
      members m' = members ?m \<union>
        {(source e, (n, e)) | n e. (n, e) \<in> set xs \<and> \<not> not_checkable e}"
      by (rule Cons.IH)
    with members_update [OF Cons.prems(2), of "source e" "(n, e)"] False x show ?thesis
      by auto
  qed
qed


lemma check_skill_sets:
  "check_skill f t s (n, e) (u, r) = (u', r') \<Longrightarrow>
   set u' = set u \<union> {(n, s) | x. x = n \<and> verdict_of f t s e = UpdateAvailable} \<and>
   set r' = set r \<union> {(n, s, msg) | msg. verdict_of f t s e = CouldNotCheck msg}"
  by (auto simp: verdict_of_def truthy_def split: js_result.splits option.splits if_splits)

lemma fold_check_skill_sets:
  "fold (check_skill f t s) g (u, r) = (u', r') \<Longrightarrow>
   set u' = set u \<union> {(n, s) | n e. (n, e) \<in> set g \<and> verdict_of f t s e = UpdateAvailable} \<and>
   set r' = set r \<union> {(n, s, msg) | n e msg. (n, e) \<in> set g \<and> verdict_of f t s e = CouldNotCheck msg}"
proof (induction g arbitrary: u r)
  case Nil
  then show ?case by simp
next
  case (Cons x g)
  obtain n e where x: "x = (n, e)" by (cases x)
  obtain u1 r1 where step: "check_skill f t s (n, e) (u, r) = (u1, r1)"
    by (cases "check_skill f t s (n, e) (u, r)")
  with Cons.prems x have "fold (check_skill f t s) g (u1, r1) = (u', r')"
    by simp
  from Cons.IH [OF this] check_skill_sets [OF step] x show ?case
    by auto
qed

lemma fold_groups_sets:
  "fold (\<lambda>(src, grp) lists. fold (check_skill f t src) grp lists) m (u, r) = (u', r') \<Longrightarrow>
   set u' = set u \<union>
     {(n, s) | n s e. (s, (n, e)) \<in> members m \<and> verdict_of f t s e = UpdateAvailable} \<and>
   set r' = set r \<union>
     {(n, s, msg) | n s e msg. (s, (n, e)) \<in> members m \<and> verdict_of f t s e = CouldNotCheck msg}"
proof (induction m arbitrary: u r)
  case Nil
  then show ?case by (simp add: members_Nil)
next
  case (Cons p m)
  obtain s g where p: "p = (s, g)" by (cases p)
  obtain u1 r1 where step: "fold (check_skill f t s) g (u, r) = (u1, r1)"
    by (cases "fold (check_skill f t s) g (u, r)")
  with Cons.prems p
  have "fold (\<lambda>(src, grp) lists. fold (check_skill f t src) grp lists) m (u1, r1) = (u', r')"
    by simp
  from Cons.IH [OF this] fold_check_skill_sets [OF step] p show ?case
    by (auto simp: members_Cons)
qed

lemma runCheck_report:
  assumes "runCheck f t lock = Report rep"
  shows "skippedCount rep = length (filter (\<lambda>(n, e). not_checkable e) (skills lock))"
    and "totalSkills rep = length (filter (\<lambda>(n, e). \<not> not_checkable e) (skills lock))"
    and "set (updates rep) =
      {(n, source e) | n e. (n, e) \<in> set (skills lock) \<and> \<not> not_checkable e \<and>
         verdict_of f t (source e) e = UpdateAvailable}"
    and "set (errors rep) =
      {(n, source e, msg) | n e msg. (n, e) \<in> set (skills lock) \<and> \<not> not_checkable e \<and>
         verdict_of f t (source e) e = CouldNotCheck msg}"
proof -
  obtain m k where c: "collect_by_source (skills lock) ([], 0) = (m, k)"
    by (cases "collect_by_source (skills lock) ([], 0)")
  obtain u r where s: "check_sources f t m = (u, r)"
    by (cases "check_sources f t m")
  from assms c s have rep: "rep = \<lparr>totalSkills = length (skills lock) - k, skippedCount = k,
      updates = u, errors = r\<rparr>"
    by (simp add: runCheck_def Let_def split: if_splits)
  from collect_by_source_inv [OF c]
  have k: "k = length (filter (\<lambda>(n, e). not_checkable e) (skills lock))"
    and m: "members m = {(source e, (n, e)) | n e. (n, e) \<in> set (skills lock) \<and> \<not> not_checkable e}"
    by (simp_all add: members_Nil)
  from rep k show "skippedCount rep = length (filter (\<lambda>(n, e). not_checkable e) (skills lock))"
    by simp
  have "length (skills lock) =
      length (filter (\<lambda>(n, e). not_checkable e) (skills lock)) +
      length (filter (\<lambda>(n, e). \<not> not_checkable e) (skills lock))"
    using sum_length_filter_compl [of "\<lambda>(n, e). not_checkable e" "skills lock"]
    by (simp add: case_prod_unfold)
  with rep k show "totalSkills rep = length (filter (\<lambda>(n, e). \<not> not_checkable e) (skills lock))"
    by simp
  from s have "fold (\<lambda>(src, grp) lists. fold (check_skill f t src) grp lists) m ([], []) = (u, r)"
    by (simp add: check_sources_def)
  from fold_groups_sets [OF this] m rep
  show "set (updates rep) =
      {(n, source e) | n e. (n, e) \<in> set (skills lock) \<and> \<not> not_checkable e \<and>
         verdict_of f t (source e) e = UpdateAvailable}"
    and "set (errors rep) =
      {(n, source e, msg) | n e msg. (n, e) \<in> set (skills lock) \<and> \<not> not_checkable e \<and>
         verdict_of f t (source e) e = CouldNotCheck msg}"
    by auto
qed


lemma github_fetcher_returns:
  "github_fetcher http ownerRepo (Some p) token =
   Returned (fetchSkillFolderHash http ownerRepo p token)"
  by (simp add: github_fetcher_def)

lemma runCheck_reports:
  assumes "(n, e) \<in> set (skills lock)" and "\<not> not_checkable e"
  shows "\<exists>rep. runCheck f t lock = Report rep"
proof -
  obtain m k where c: "collect_by_source (skills lock) ([], 0) = (m, k)"
    by (cases "collect_by_source (skills lock) ([], 0)")
  from collect_by_source_inv [OF c]
  have k: "k = length (filter (\<lambda>(n, e). not_checkable e) (skills lock))"
    by simp
  from assms have "(n, e) \<in> set (filter (\<lambda>(n, e). \<not> not_checkable e) (skills lock))"
    by simp
  then have "0 < length (filter (\<lambda>(n, e). \<not> not_checkable e) (skills lock))"
    by (metis length_pos_if_in_set)
  moreover have "length (skills lock) =
      length (filter (\<lambda>(n, e). not_checkable e) (skills lock)) +
      length (filter (\<lambda>(n, e). \<not> not_checkable e) (skills lock))"
    using sum_length_filter_compl [of "\<lambda>(n, e). not_checkable e" "skills lock"]
    by (simp add: case_prod_unfold)
  ultimately have "0 < length (skills lock) - k" and "skills lock \<noteq> []"
    using k by auto
  with c show ?thesis
    by (simp add: runCheck_def Let_def split: prod.splits)
qed

lemma distinct_names_entry:
  "distinct (map fst xs) \<Longrightarrow> (n, e) \<in> set xs \<Longrightarrow> (n, e') \<in> set xs \<Longrightarrow> e' = e"
  by (meson eq_key_imp_eq_value)

text \<open>
  Claim C1. For every lock entry that is checkable, \<open>runCheck\<close> produces a report, and
  the entry meets exactly one of three outcomes: when the fetched fingerprint equals
  the stored \<open>skillFolderHash\<close> the skill is in neither list (no update is reported);
  when the fetched fingerprint differs from the stored one the skill is listed as an
  update; when the fetch returns null the skill is listed among those that could not
  be checked, and not as an update. A fingerprint is a non-empty hash: the empty
  string, which stands for an unknown hash in the lock file, is read by the test
  \<open>!latestHash\<close> as no fingerprint, like null.
\<close>

theorem runCheck_three_outcomes:
  assumes "distinct (map fst (skills lock))"
    and "(n, e) \<in> set (skills lock)"
    and "\<not> not_checkable e"
    and "fetchHash (source e) (skillPath e) token = Returned latest"
  shows "\<exists>rep. runCheck fetchHash token lock = Report rep \<and>
     (latest = Some (skillFolderHash e) \<longrightarrow>
        n \<notin> fst ` set (updates rep) \<and> n \<notin> fst ` set (errors rep)) \<and>
     ((\<exists>h. latest = Some h \<and> h \<noteq> [] \<and> h \<noteq> skillFolderHash e) \<longrightarrow>
        (n, source e) \<in> set (updates rep) \<and> n \<notin> fst ` set (errors rep)) \<and>
     (latest = None \<or> latest = Some [] \<longrightarrow>
        n \<notin> fst ` set (updates rep) \<and>
        (n, source e, ''Could not fetch from GitHub'') \<in> set (errors rep))"
proof -
  from runCheck_reports [OF assms(2,3)]
  obtain rep where rep: "runCheck fetchHash token lock = Report rep" ..
  note sets = runCheck_report(3,4) [OF rep]
  from assms(3) have hash: "skillFolderHash e \<noteq> []"
    by (simp add: not_checkable_def)
  have only: "\<And>e'. (n, e') \<in> set (skills lock) \<Longrightarrow> e' = e"
    using distinct_names_entry [OF assms(1,2)] .
  have same: "latest = Some (skillFolderHash e) \<longrightarrow>
        n \<notin> fst ` set (updates rep) \<and> n \<notin> fst ` set (errors rep)"
  proof
    assume "latest = Some (skillFolderHash e)"
    with assms(4) hash have "verdict_of fetchHash token (source e) e = UpToDate"
      by (simp add: verdict_of_def)
    with sets only show "n \<notin> fst ` set (updates rep) \<and> n \<notin> fst ` set (errors rep)"
      by force
  qed
  have differs: "(\<exists>h. latest = Some h \<and> h \<noteq> [] \<and> h \<noteq> skillFolderHash e) \<longrightarrow>
        (n, source e) \<in> set (updates rep) \<and> n \<notin> fst ` set (errors rep)"
  proof
    assume "\<exists>h. latest = Some h \<and> h \<noteq> [] \<and> h \<noteq> skillFolderHash e"
    with assms(4) have v: "verdict_of fetchHash token (source e) e = UpdateAvailable"
      by (auto simp: verdict_of_def)
    with sets assms(2,3) have "(n, source e) \<in> set (updates rep)"
      by blast
    moreover from v sets only have "n \<notin> fst ` set (errors rep)"
      by force
    ultimately show "(n, source e) \<in> set (updates rep) \<and> n \<notin> fst ` set (errors rep)" ..
  qed
  have null: "latest = None \<or> latest = Some [] \<longrightarrow>
        n \<notin> fst ` set (updates rep) \<and>
        (n, source e, ''Could not fetch from GitHub'') \<in> set (errors rep)"
  proof
    assume "latest = None \<or> latest = Some []"
    with assms(4)
    have v: "verdict_of fetchHash token (source e) e = CouldNotCheck ''Could not fetch from GitHub''"
      by (auto simp: verdict_of_def)
    with sets assms(2,3) have "(n, source e, ''Could not fetch from GitHub'') \<in> set (errors rep)"
      by blast
    moreover from v sets only have "n \<notin> fst ` set (updates rep)"
      by force
    ultimately show "n \<notin> fst ` set (updates rep) \<and>
        (n, source e, ''Could not fetch from GitHub'') \<in> set (errors rep)" by simp
  qed
  from rep same differs null show ?thesis
    by blast
qed

theorem runCheck_three_outcomes_witness:
  "(\<exists>rep. runCheck (answering (Some ''abc'')) None abc_lock = Report rep \<and>
      ''a'' \<notin> fst ` set (updates rep) \<and> ''a'' \<notin> fst ` set (errors rep)) \<and>
   (\<exists>rep. runCheck (answering (Some ''def'')) None abc_lock = Report rep \<and>
      (''a'', ''o/r'') \<in> set (updates rep) \<and> ''a'' \<notin> fst ` set (errors rep)) \<and>
   (\<exists>rep. runCheck (answering None) None abc_lock = Report rep \<and>
      ''a'' \<notin> fst ` set (updates rep) \<and>
      (''a'', ''o/r'', ''Could not fetch from GitHub'') \<in> set (errors rep))"
proof -
  have lock: "distinct (map fst (skills abc_lock))" "(''a'', abc_entry) \<in> set (skills abc_lock)"
    by (simp_all add: abc_lock_def)
  have entry: "\<not> not_checkable abc_entry" "skillFolderHash abc_entry = ''abc''"
    "source abc_entry = ''o/r''"
    by (simp_all add: not_checkable_def abc_entry_def truthy_def)
  have answers: "\<And>latest. answering latest (source abc_entry) (skillPath abc_entry) None =
      Returned latest"
    by (simp add: answering_def)
  note same = runCheck_three_outcomes [where fetchHash = "answering (Some ''abc'')"
      and latest = "Some ''abc''" and token = None, OF lock entry(1) answers]
  note differs = runCheck_three_outcomes [where fetchHash = "answering (Some ''def'')"
      and latest = "Some ''def''" and token = None, OF lock entry(1) answers]
  note null = runCheck_three_outcomes [where fetchHash = "answering None"
      and latest = None and token = None, OF lock entry(1) answers]
  from same differs null
  show ?thesis
    by (simp add: entry)
qed

lemma find_updates_inv:
  "find_updates f t xs (found, c) = (found', c') \<Longrightarrow>
   c' = c + length (filter (\<lambda>(n, e). \<not> not_checkable e) xs) \<and>
   found' = found @ filter (\<lambda>(n, e). \<not> not_checkable e \<and>
      verdict_of f t (source e) e = UpdateAvailable) xs"
proof (induction xs arbitrary: found c)
  case Nil
  then show ?case by simp
next
  case (Cons x xs)
  obtain n e where x: "x = (n, e)" by (cases x)
  show ?case
  proof (cases "not_checkable e")
    case True
    with Cons.prems x have "find_updates f t xs (found, c) = (found', c')"
      by simp
    from Cons.IH [OF this] True x show ?thesis
      by simp
  next
    case False
    show ?thesis
    proof (cases "verdict_of f t (source e) e = UpdateAvailable")
      case True
      with False Cons.prems x
      have "find_updates f t xs (found @ [(n, e)], Suc c) = (found', c')"
        by (auto simp: verdict_of_def truthy_def split: js_result.splits option.splits if_splits)
      from Cons.IH [OF this] True False x show ?thesis
        by simp
    next
      case no: False
      with False Cons.prems x
      have "find_updates f t xs (found, Suc c) = (found', c')"
        by (auto simp: verdict_of_def truthy_def split: js_result.splits option.splits if_splits)
      from Cons.IH [OF this] no False x show ?thesis
        by simp
    qed
  qed
qed









section \<open>The reinstall URL in runUpdate\<close>

lemma apply_updates_urls:
  "installs (apply_updates spawn found report) =
   installs report @ map (\<lambda>(n, e). (n, installUrl_of e)) found"
  by (induction found arbitrary: report) (auto simp: Let_def)

lemma runUpdate_urls:
  assumes "runUpdate f spawn t lock = Updated urep"
  shows "installs urep =
    map (\<lambda>(n, e). (n, installUrl_of e))
      (filter (\<lambda>(n, e). \<not> not_checkable e \<and>
         verdict_of f t (source e) e = UpdateAvailable) (skills lock))"
proof -
  obtain found c where fu: "find_updates f t (skills lock) ([], 0) = (found, c)"
    by (cases "find_updates f t (skills lock) ([], 0)")
  from find_updates_inv [OF fu]
  have found: "found = filter (\<lambda>(n, e). \<not> not_checkable e \<and>
      verdict_of f t (source e) e = UpdateAvailable) (skills lock)"
    by simp
  from assms fu
  have "urep = apply_updates spawn found \<lparr>installs = [], successCount = 0, failCount = 0\<rparr>"
    by (simp add: runUpdate_def split: if_splits)
  with found show ?thesis
    by (simp add: apply_updates_urls)
qed

text \<open>
  Claim C10. In \<open>runUpdate\<close> the URL handed to the reinstall is, for a lock entry with a
  non-empty \<open>skillPath\<close>, the stored \<open>sourceUrl\<close> without a trailing \<open>.git\<close> and without
  a trailing slash, followed by \<open>/tree/main/\<close> and by the skill path with its trailing
  \<open>SKILL.md\<close> and trailing slash removed; with an empty or absent \<open>skillPath\<close> it is the
  stored \<open>sourceUrl\<close>. The URL is a function of the entry alone, so the branch is the
  literal \<open>main\<close> whatever branch gave the fetched fingerprint. The removal takes
  \<open>/SKILL.md\<close> as one suffix; this is the removal of \<open>SKILL.md\<close> and of a slash, word by
  word, for every path that does not end with \<open>//SKILL.md\<close>. Every reinstall that
  \<open>runUpdate\<close> starts is for an entry of the lock that is checkable, so its \<open>skillPath\<close>
  is not empty and its URL has the first form: the case of an empty \<open>skillPath\<close> does
  not arise there.
\<close>

theorem reinstall_url_main_branch:
  "installUrl_of entry = described_installUrl entry \<and>
   ((\<forall>p. skillPath entry = Some p \<longrightarrow> \<not> endsWith p ''//SKILL.md'') \<longrightarrow>
      installUrl_of entry = literal_installUrl entry) \<and>
   (\<forall>urep. runUpdate fetchHash spawn token lock = Updated urep \<longrightarrow>
      (\<forall>(n, url) \<in> set (installs urep).
         \<exists>e p. (n, e) \<in> set (skills lock) \<and> skillPath e = Some p \<and> p \<noteq> [] \<and>
           url = described_base (sourceUrl e) @ ''/tree/main/'' @ described_folder p \<and>
           (\<not> endsWith p ''//SKILL.md'' \<longrightarrow>
              url = described_base (sourceUrl e) @ ''/tree/main/'' @ literal_folder p)))"
proof -
  have runs: "\<forall>urep. runUpdate fetchHash spawn token lock = Updated urep \<longrightarrow>
      (\<forall>(n, url) \<in> set (installs urep).
         \<exists>e p. (n, e) \<in> set (skills lock) \<and> skillPath e = Some p \<and> p \<noteq> [] \<and>
           url = described_base (sourceUrl e) @ ''/tree/main/'' @ described_folder p \<and>
           (\<not> endsWith p ''//SKILL.md'' \<longrightarrow>
              url = described_base (sourceUrl e) @ ''/tree/main/'' @ literal_folder p))"
  proof (intro allI impI)
    fix urep
    assume "runUpdate fetchHash spawn token lock = Updated urep"
    note urls = runUpdate_urls [OF this]
    show "\<forall>(n, url) \<in> set (installs urep).
         \<exists>e p. (n, e) \<in> set (skills lock) \<and> skillPath e = Some p \<and> p \<noteq> [] \<and>
           url = described_base (sourceUrl e) @ ''/tree/main/'' @ described_folder p \<and>
           (\<not> endsWith p ''//SKILL.md'' \<longrightarrow>
              url = described_base (sourceUrl e) @ ''/tree/main/'' @ literal_folder p)"
    proof (clarify)
      fix n url
      assume "(n, url) \<in> set (installs urep)"
      with urls obtain e where e: "(n, e) \<in> set (skills lock)" "\<not> not_checkable e"
        and url: "url = installUrl_of e"
        by auto
      from e(2) obtain p where p: "skillPath e = Some p" "p \<noteq> []"
        by (cases "skillPath e") (auto simp: not_checkable_def truthy_def)
      from url p have d: "url = described_base (sourceUrl e) @ ''/tree/main/'' @ described_folder p"
        by (simp add: installUrl_of_described described_installUrl_def
            described_installUrl_with_def)
      then have "\<not> endsWith p ''//SKILL.md'' \<longrightarrow>
          url = described_base (sourceUrl e) @ ''/tree/main/'' @ literal_folder p"
        by (simp add: described_folder_literal)
      with e(1) p d
      show "\<exists>e p. (n, e) \<in> set (skills lock) \<and> skillPath e = Some p \<and> p \<noteq> [] \<and>
           url = described_base (sourceUrl e) @ ''/tree/main/'' @ described_folder p \<and>
           (\<not> endsWith p ''//SKILL.md'' \<longrightarrow>
              url = described_base (sourceUrl e) @ ''/tree/main/'' @ literal_folder p)"
        by blast
    qed
  qed
  from installUrl_of_described [of entry] installUrl_of_literal [of entry] runs
  show ?thesis
    by blast
qed

theorem reinstall_url_main_branch_witness:
  "installUrl_of abc_entry = ''https://github.com/o/r/tree/main/skills/a'' \<and>
   described_installUrl abc_entry = ''https://github.com/o/r/tree/main/skills/a'' \<and>
   literal_installUrl abc_entry = ''https://github.com/o/r/tree/main/skills/a'' \<and>
   runUpdate (answering (Some ''def'')) spawn_ok None abc_lock =
     Updated \<lparr>installs = [(''a'', ''https://github.com/o/r/tree/main/skills/a'')],
              successCount = 1, failCount = 0\<rparr> \<and>
   (\<exists>e p. (''a'', e) \<in> set (skills abc_lock) \<and> skillPath e = Some p \<and> p \<noteq> [] \<and>
      ''https://github.com/o/r/tree/main/skills/a'' =
        described_base (sourceUrl e) @ ''/tree/main/'' @ literal_folder p) \<and>
   installUrl_of (abc_entry\<lparr>skillPath := None\<rparr>) = ''https://github.com/o/r.git'' \<and>
   described_installUrl (abc_entry\<lparr>skillPath := Some []\<rparr>) = ''https://github.com/o/r.git''"
proof -
  have code: "installUrl_of abc_entry = ''https://github.com/o/r/tree/main/skills/a''"
    and absent: "installUrl_of (abc_entry\<lparr>skillPath := None\<rparr>) = ''https://github.com/o/r.git''"
    and empty: "installUrl_of (abc_entry\<lparr>skillPath := Some []\<rparr>) = ''https://github.com/o/r.git''"
    and run: "runUpdate (answering (Some ''def'')) spawn_ok None abc_lock =
     Updated \<lparr>installs = [(''a'', ''https://github.com/o/r/tree/main/skills/a'')],
              successCount = 1, failCount = 0\<rparr>"
    and single: "\<not> endsWith ''skills/a/SKILL.md'' ''//SKILL.md''"
    by code_simp+
  from single have path: "\<forall>p. skillPath abc_entry = Some p \<longrightarrow> \<not> endsWith p ''//SKILL.md''"
    by (simp add: abc_entry_def)
  note inst = reinstall_url_main_branch [where entry = abc_entry
      and fetchHash = "answering (Some ''def'')" and spawn = spawn_ok and token = None
      and lock = abc_lock]
  note inst_empty = reinstall_url_main_branch [where entry = "abc_entry\<lparr>skillPath := Some []\<rparr>"
      and fetchHash = "answering (Some ''def'')" and spawn = spawn_ok and token = None
      and lock = abc_lock]
  from conjunct1 [OF inst] code
  have described: "described_installUrl abc_entry = ''https://github.com/o/r/tree/main/skills/a''"
    by simp
  from mp [OF conjunct1 [OF conjunct2 [OF inst]] path] code
  have literal: "literal_installUrl abc_entry = ''https://github.com/o/r/tree/main/skills/a''"
    by simp
  from conjunct1 [OF inst_empty] empty
  have described_empty: "described_installUrl (abc_entry\<lparr>skillPath := Some []\<rparr>) =
      ''https://github.com/o/r.git''"
    by simp
  from conjunct2 [OF conjunct2 [OF inst]] run
  have "\<forall>(n, url) \<in> set [(''a'', ''https://github.com/o/r/tree/main/skills/a'')].
         \<exists>e p. (n, e) \<in> set (skills abc_lock) \<and> skillPath e = Some p \<and> p \<noteq> [] \<and>
           url = described_base (sourceUrl e) @ ''/tree/main/'' @ described_folder p \<and>
           (\<not> endsWith p ''//SKILL.md'' \<longrightarrow>
              url = described_base (sourceUrl e) @ ''/tree/main/'' @ literal_folder p)"
    by simp
  then obtain e p where e: "(''a'', e) \<in> set (skills abc_lock)" "skillPath e = Some p" "p \<noteq> []"
    and lit: "\<not> endsWith p ''//SKILL.md'' \<longrightarrow>
      ''https://github.com/o/r/tree/main/skills/a'' =
        described_base (sourceUrl e) @ ''/tree/main/'' @ literal_folder p"
    by auto
  from e(1) have "e = abc_entry"
    by (simp add: abc_lock_def)
  with e(2) path have "\<not> endsWith p ''//SKILL.md''"
    by simp
  with lit e have "\<exists>e p. (''a'', e) \<in> set (skills abc_lock) \<and> skillPath e = Some p \<and> p \<noteq> [] \<and>
      ''https://github.com/o/r/tree/main/skills/a'' =
        described_base (sourceUrl e) @ ''/tree/main/'' @ literal_folder p"
    by blast
  with code described literal run absent described_empty show ?thesis
    by blast
qed

section \<open>Properties of readSkillLock\<close>

lemma guard_version_outdated:
  "outdated doc \<Longrightarrow> guard_version 3 doc = empty_lock 3"
  by (cases doc)
    (auto simp: outdated_def version_tag_def guard_version_def
      split: option.splits json.splits js_result.splits)

lemma tracked_skills_empty_lock: "tracked_skills (empty_lock v) = []"
  by (simp add: tracked_skills_def empty_lock_def)

text \<open>
  Claim C3. For every content of the lock file that parses to a document whose version
  tag is absent, not a number, or strictly below 3, reading the lock store yields the
  empty lock file: no tracked skill, and the same value as for a lock file that cannot
  be read. Nothing of the stored document is kept. This holds for the reader of
  skill-lock.ts and for its copy in cli.ts.
\<close>

theorem outdated_lock_reads_empty:
  assumes "parse stored_text = Some doc" and "outdated doc"
  shows "readSkillLock parse (Content stored_text) = createEmptyLockFile \<and>
    readSkillLock parse (Content stored_text) = readSkillLock parse Unreadable \<and>
    tracked_skills (readSkillLock parse (Content stored_text)) = [] \<and>
    cli_readSkillLock parse (Content stored_text) = cli_readSkillLock parse Unreadable \<and>
    tracked_skills (cli_readSkillLock parse (Content stored_text)) = []"
  using assms guard_version_outdated [of doc]
  by (simp add: readSkillLock_def cli_readSkillLock_def createEmptyLockFile_def
      CURRENT_VERSION_def CURRENT_LOCK_VERSION_def tracked_skills_empty_lock)

theorem outdated_lock_reads_empty_witness:
  "parse_docs ''v1'' = Some version1_doc \<and> outdated version1_doc \<and>
   tracked_skills (readSkillLock parse_docs (Content ''v1'')) = [] \<and>
   parse_docs ''none'' = Some unversioned_doc \<and> outdated unversioned_doc \<and>
   readSkillLock parse_docs (Content ''none'') = readSkillLock parse_docs Unreadable \<and>
   tracked_skills (readSkillLock parse_docs (Content ''v3'')) = [''a'']"
proof -
  have v1: "parse_docs ''v1'' = Some version1_doc" "outdated version1_doc"
    and none: "parse_docs ''none'' = Some unversioned_doc" "outdated unversioned_doc"
    and v3: "tracked_skills (readSkillLock parse_docs (Content ''v3'')) = [''a'']"
    by code_simp+
  from outdated_lock_reads_empty [where parse = parse_docs and stored_text = "''v1''", OF v1]
    outdated_lock_reads_empty [where parse = parse_docs and stored_text = "''none''", OF none]
    v1 none v3
  show ?thesis
    by blast
qed

section \<open>Properties of addSkillToLock\<close>

text \<open>
  For every skill name but \<open>__proto__\<close>, and for \<open>__proto__\<close> too when the lock file
  already has that key, \<open>addSkillToLock\<close> stores the entry under the name and leaves
  every other name as it was: the stored entry has the fields of the given entry,
  \<open>updatedAt\<close> is the current time, and \<open>installedAt\<close> is the \<open>installedAt\<close> of the
  entry already stored under the name when there is one, and the current time when
  there is none.
\<close>

lemma addSkillToLock_upserts:
  assumes "skillName \<noteq> ''__proto__'' \<or> map_of (skills lock) skillName \<noteq> None"
  shows "\<exists>stored.
     getSkillFromLock (addSkillToLock now lock skillName entry) skillName = OwnEntry stored \<and>
     map_of (skills (addSkillToLock now lock skillName entry)) skillName = Some stored \<and>
     source stored = source entry \<and> sourceType stored = sourceType entry \<and>
     sourceUrl stored = sourceUrl entry \<and> skillPath stored = skillPath entry \<and>
     skillFolderHash stored = skillFolderHash entry \<and>
     updatedAt stored = now \<and>
     (\<forall>existing. map_of (skills lock) skillName = Some existing \<longrightarrow>
        installedAt stored = installedAt existing) \<and>
     (map_of (skills lock) skillName = None \<longrightarrow> installedAt stored = now) \<and>
     (\<forall>other. other \<noteq> skillName \<longrightarrow>
        getSkillFromLock (addSkillToLock now lock skillName entry) other =
        getSkillFromLock lock other) \<and>
     fst ` set (skills (addSkillToLock now lock skillName entry)) =
       insert skillName (fst ` set (skills lock)) \<and>
     version (addSkillToLock now lock skillName entry) = version lock"
proof (cases "map_of (skills lock) skillName")
  case None
  with assms have "skillName \<noteq> ''__proto__''"
    by simp
  with None show ?thesis
    by (simp add: getSkillFromLock_def addSkillToLock_def write_slot_def read_slot_def
        update_conv' Let_def dom_update split: skill_slot.splits)
next
  case (Some existing)
  then show ?thesis
    by (simp add: getSkillFromLock_def addSkillToLock_def write_slot_def read_slot_def
        update_conv' Let_def dom_update)
qed

lemma addSkillToLock_upserts_example:
  "getSkillFromLock abc_lock ''a'' = OwnEntry abc_entry \<and>
   getSkillFromLock (addSkillToLock ''t1'' abc_lock ''a'' def_source) ''a'' =
     OwnEntry (abc_entry\<lparr>skillFolderHash := ''def'', updatedAt := ''t1''\<rparr>) \<and>
   installedAt abc_entry = ''t0'' \<and>
   getSkillFromLock abc_lock ''b'' = NoValue \<and>
   getSkillFromLock (addSkillToLock ''t1'' abc_lock ''b'' def_source) ''b'' =
     OwnEntry (abc_entry\<lparr>skillFolderHash := ''def'', installedAt := ''t1'',
       updatedAt := ''t1''\<rparr>) \<and>
   getSkillFromLock (addSkillToLock ''t1'' abc_lock ''b'' def_source) ''a'' = OwnEntry abc_entry \<and>
   getSkillFromLock abc_lock ''constructor'' = InheritedMember \<and>
   getSkillFromLock (addSkillToLock ''t1'' abc_lock ''constructor'' def_source) ''constructor'' =
     OwnEntry (abc_entry\<lparr>skillFolderHash := ''def'', installedAt := ''t1'',
       updatedAt := ''t1''\<rparr>)"
  by code_simp

text \<open>
  Claim C4 fails in the code for the skill name \<open>__proto__\<close>. On a lock file that has
  no such key the assignment sets the prototype of \<open>lock.skills\<close> and adds no key:
  the lock that is written is the lock that was read, the entry is stored nowhere,
  and a later \<open>getSkillFromLock\<close> gives the prototype of the object, not an entry with
  the given fields. The same call with the name \<open>b\<close> stores the entry.
\<close>

theorem addSkillToLock_proto_not_stored:
  "map_of (skills abc_lock) ''__proto__'' = None \<and>
   addSkillToLock ''t1'' abc_lock ''__proto__'' def_source = abc_lock \<and>
   map fst (skills (addSkillToLock ''t1'' abc_lock ''__proto__'' def_source)) = [''a''] \<and>
   getSkillFromLock (addSkillToLock ''t1'' abc_lock ''__proto__'' def_source) ''__proto__'' =
     InheritedMember \<and>
   map fst (skills (addSkillToLock ''t1'' abc_lock ''b'' def_source)) = [''a'', ''b'']"
  by code_simp

section \<open>Properties of the selection\<close>

lemma merge_skillFilter_names:
  "truthy skillFilter \<Longrightarrow>
   has_names (skill (merge_skillFilter skillFilter options)) \<and>
   the skillFilter \<in> set (the (skill (merge_skillFilter skillFilter options)))"
  by (cases "skill options") (auto simp: merge_skillFilter_def has_names_def Let_def)

text \<open>
  Claim C8. The selection follows this precedence: a \<open>*\<close> among the names of the skill
  filter selects all discovered skills; otherwise a non-empty list of names selects
  the skills the filter matches, and when it matches none the run exits with status 1
  after the available names are listed; otherwise a single discovered skill is selected;
  otherwise \<open>yes\<close> selects all; otherwise the interactive prompt decides. The flag
  \<open>all\<close> sets the filter to \<open>*\<close> and so selects all.
\<close>

theorem select_skills_precedence:
  "(\<forall>names. skill options = Some names \<and> ''*'' \<in> set names \<longrightarrow>
      select_skills filterSkills display multiselect options discovered = Selected discovered) \<and>
   (\<forall>names. skill options = Some names \<and> ''*'' \<notin> set names \<and> names \<noteq> [] \<and>
      filterSkills discovered names \<noteq> [] \<longrightarrow>
      select_skills filterSkills display multiselect options discovered =
        Selected (filterSkills discovered names)) \<and>
   (\<forall>names. skill options = Some names \<and> ''*'' \<notin> set names \<and> names \<noteq> [] \<and>
      filterSkills discovered names = [] \<longrightarrow>
      select_skills filterSkills display multiselect options discovered =
        NoMatchingSkills (map display discovered) \<and>
      exit_status (select_skills filterSkills display multiselect options discovered) = Some 1) \<and>
   ((skill options = None \<or> skill options = Some []) \<and> length discovered = 1 \<longrightarrow>
      select_skills filterSkills display multiselect options discovered = Selected discovered) \<and>
   ((skill options = None \<or> skill options = Some []) \<and> length discovered \<noteq> 1 \<and>
      yes options \<longrightarrow>
      select_skills filterSkills display multiselect options discovered = Selected discovered) \<and>
   ((skill options = None \<or> skill options = Some []) \<and> length discovered \<noteq> 1 \<and>
      \<not> yes options \<longrightarrow>
      select_skills filterSkills display multiselect options discovered =
        (case multiselect discovered of None \<Rightarrow> Cancelled | Some chosen \<Rightarrow> Selected chosen)) \<and>
   (all_flag options \<longrightarrow>
      select_skills filterSkills display multiselect (all_implies options) discovered =
        Selected discovered)"
  by (cases "skill options")
    (auto simp: select_skills_def all_implies_def includes_star_def has_names_def Let_def)

theorem select_skills_precedence_witness:
  "select_skills by_name name pick_first (plain_options\<lparr>skill := Some [''x'', ''*'']\<rparr>)
     [skill_named ''a'', skill_named ''b''] = Selected [skill_named ''a'', skill_named ''b''] \<and>
   select_skills by_name name pick_first (plain_options\<lparr>skill := Some [''b'']\<rparr>)
     [skill_named ''a'', skill_named ''b''] = Selected [skill_named ''b''] \<and>
   select_skills by_name name pick_first (plain_options\<lparr>skill := Some [''c''], yes := True\<rparr>)
     [skill_named ''a'', skill_named ''b''] = NoMatchingSkills [''a'', ''b''] \<and>
   select_skills by_name name pick_first plain_options [skill_named ''a''] =
     Selected [skill_named ''a''] \<and>
   select_skills by_name name pick_first (plain_options\<lparr>yes := True\<rparr>)
     [skill_named ''a'', skill_named ''b''] = Selected [skill_named ''a'', skill_named ''b''] \<and>
   select_skills by_name name pick_first plain_options
     [skill_named ''a'', skill_named ''b''] = Selected [skill_named ''a''] \<and>
   select_skills by_name name pick_first (all_implies (plain_options\<lparr>all_flag := True\<rparr>))
     [skill_named ''a'', skill_named ''b''] = Selected [skill_named ''a'', skill_named ''b'']"
proof -
  let ?two = "[skill_named ''a'', skill_named ''b'']"
  note inputs = plain_options_def by_name_def skill_named_def pick_first_def
  have star: "select_skills by_name name pick_first (plain_options\<lparr>skill := Some [''x'', ''*'']\<rparr>)
      ?two = Selected ?two"
    using select_skills_precedence [where filterSkills = by_name and display = name
        and multiselect = pick_first and discovered = ?two
        and options = "plain_options\<lparr>skill := Some [''x'', ''*'']\<rparr>"]
    by (simp add: inputs)
  have match: "select_skills by_name name pick_first (plain_options\<lparr>skill := Some [''b'']\<rparr>)
      ?two = Selected [skill_named ''b'']"
    using select_skills_precedence [where filterSkills = by_name and display = name
        and multiselect = pick_first and discovered = ?two
        and options = "plain_options\<lparr>skill := Some [''b'']\<rparr>"]
    by (simp add: inputs)
  have none: "select_skills by_name name pick_first
      (plain_options\<lparr>skill := Some [''c''], yes := True\<rparr>) ?two = NoMatchingSkills [''a'', ''b'']"
    using select_skills_precedence [where filterSkills = by_name and display = name
        and multiselect = pick_first and discovered = ?two
        and options = "plain_options\<lparr>skill := Some [''c''], yes := True\<rparr>"]
    by (simp add: inputs)
  have single: "select_skills by_name name pick_first plain_options [skill_named ''a''] =
      Selected [skill_named ''a'']"
    using select_skills_precedence [where filterSkills = by_name and display = name
        and multiselect = pick_first and discovered = "[skill_named ''a'']"
        and options = plain_options]
    by (simp add: inputs)
  have accept: "select_skills by_name name pick_first (plain_options\<lparr>yes := True\<rparr>) ?two =
      Selected ?two"
    using select_skills_precedence [where filterSkills = by_name and display = name
        and multiselect = pick_first and discovered = ?two
        and options = "plain_options\<lparr>yes := True\<rparr>"]
    by (simp add: inputs)
  have prompt: "select_skills by_name name pick_first plain_options ?two =
      Selected [skill_named ''a'']"
    using select_skills_precedence [where filterSkills = by_name and display = name
        and multiselect = pick_first and discovered = ?two and options = plain_options]
    by (simp add: inputs)
  have everything: "select_skills by_name name pick_first
      (all_implies (plain_options\<lparr>all_flag := True\<rparr>)) ?two = Selected ?two"
    using select_skills_precedence [where filterSkills = by_name and display = name
        and multiselect = pick_first and discovered = ?two
        and options = "plain_options\<lparr>all_flag := True\<rparr>"]
    by (simp add: inputs)
  from star match none single accept prompt everything show ?thesis
    by blast
qed

section \<open>Properties of the copy\<close>

lemma isExcluded_iff:
  "isExcluded n d \<longleftrightarrow>
     n = ''README.md'' \<or> n = ''metadata.json'' \<or> startsWith n ''_'' \<or> (d \<and> n = ''.git'')"
  by (auto simp: isExcluded_def EXCLUDE_FILES_def EXCLUDE_DIRS_def)

lemma node_name_cp_dereference: "node_name (cp_dereference n x) = n"
  by (induction n x rule: cp_dereference.induct) simp_all

lemma cp_dereference_plain:
  "\<forall>y \<in> set (nodes_below x). \<not> is_symlink y \<Longrightarrow> cp_dereference (node_name x) x = x"
proof (induction x)
  case (File n data)
  then show ?case by simp
next
  case (Dir n entries)
  have "map (\<lambda>entry. cp_dereference (node_name entry) entry) entries = entries"
  proof (rule map_idI)
    fix entry
    assume mem: "entry \<in> set entries"
    with Dir.prems have "\<forall>y \<in> set (nodes_below entry). \<not> is_symlink y"
      by auto
    with Dir.IH mem show "cp_dereference (node_name entry) entry = entry"
      by blast
  qed
  then show ?case by simp
next
  case (Symlink n target)
  then show ?case by simp
qed

lemma names_copyDirectory:
  "map node_name (copyDirectory entries) =
   map node_name (filter (\<lambda>entry. \<not> isExcluded (node_name entry) (isDirectory entry)) entries)"
proof (induction entries rule: copyDirectory.induct)
  case 1
  then show ?case by simp
next
  case (2 entry entries)
  then show ?case
    by (cases entry) (simp_all add: node_name_cp_dereference)
qed

lemma dir_copied:
  "Dir n children \<in> set entries \<Longrightarrow> \<not> isExcluded n True \<Longrightarrow>
   Dir n (copyDirectory children) \<in> set (copyDirectory entries)"
proof (induction entries rule: copyDirectory.induct)
  case 1
  then show ?case by simp
next
  case (2 entry entries)
  then show ?case
    by (cases "entry = Dir n children") auto
qed

lemma file_copied:
  "File n data \<in> set entries \<Longrightarrow> \<not> isExcluded n False \<Longrightarrow>
   File n data \<in> set (copyDirectory entries)"
proof (induction entries rule: copyDirectory.induct)
  case 1
  then show ?case by simp
next
  case (2 entry entries)
  then show ?case
    by (cases "entry = File n data") auto
qed

lemma copied_nodes_clean:
  "\<forall>x \<in> set (all_nodes entries). \<not> is_symlink x \<Longrightarrow>
   y \<in> set (all_nodes (copyDirectory entries)) \<Longrightarrow>
   \<not> isExcluded (node_name y) (isDirectory y)"
proof (induction entries arbitrary: y rule: copyDirectory.induct)
  case 1
  then show ?case by (simp add: all_nodes_def)
next
  case (2 entry entries)
  from "2.prems"(1) have rest: "\<forall>x \<in> set (all_nodes entries). \<not> is_symlink x"
    by (simp add: all_nodes_def)
  show ?case
  proof (cases "isExcluded (node_name entry) (isDirectory entry)")
    case True
    with "2.prems"(2) have "y \<in> set (all_nodes (copyDirectory entries))"
      by simp
    from "2.IH"(1) [OF True rest this] show ?thesis .
  next
    case False
    show ?thesis
    proof (cases entry)
      case (File n data)
      with False "2.prems"(2)
      have "y = File n data \<or> y \<in> set (all_nodes (copyDirectory entries))"
        by (auto simp: all_nodes_def)
      then show ?thesis
      proof
        assume "y = File n data"
        with False File show ?thesis by simp
      next
        assume "y \<in> set (all_nodes (copyDirectory entries))"
        from "2.IH"(3) [OF False rest this] show ?thesis .
      qed
    next
      case (Dir n children)
      from "2.prems"(1) Dir have below: "\<forall>x \<in> set (all_nodes children). \<not> is_symlink x"
        by (auto simp: all_nodes_def)
      from False Dir "2.prems"(2)
      have "y = Dir n (copyDirectory children) \<or> y \<in> set (all_nodes (copyDirectory children)) \<or>
          y \<in> set (all_nodes (copyDirectory entries))"
        by (auto simp: all_nodes_def)
      then show ?thesis
      proof (elim disjE)
        assume "y = Dir n (copyDirectory children)"
        with False Dir show ?thesis by simp
      next
        assume "y \<in> set (all_nodes (copyDirectory children))"
        from "2.IH"(2) [OF False Dir below this] show ?thesis .
      next
        assume "y \<in> set (all_nodes (copyDirectory entries))"
        from "2.IH"(3) [OF False rest this] show ?thesis .
      qed
    next
      case (Symlink n target)
      with "2.prems"(1) show ?thesis
        by (simp add: all_nodes_def)
    qed
  qed
qed

lemma link_copied:
  "Symlink n target \<in> set entries \<Longrightarrow> \<not> isExcluded n False \<Longrightarrow>
   cp_dereference n target \<in> set (copyDirectory entries)"
proof (induction entries rule: copyDirectory.induct)
  case 1
  then show ?case by simp
next
  case (2 entry entries)
  then show ?case
    by (cases "entry = Symlink n target") auto
qed

lemma cp_dereference_link_target:
  "cp_dereference n x = cp_dereference n (link_target x)"
  by (induction x rule: link_target.induct) simp_all

lemma cp_dereference_plain_dir:
  assumes "\<forall>y \<in> set (all_nodes children). \<not> is_symlink y"
  shows "cp_dereference n (Dir m children) = Dir n children"
proof -
  have "map (\<lambda>entry. cp_dereference (node_name entry) entry) children = children"
  proof (rule map_idI)
    fix entry
    assume "entry \<in> set children"
    with assms have "\<forall>y \<in> set (nodes_below entry). \<not> is_symlink y"
      by (auto simp: all_nodes_def)
    then show "cp_dereference (node_name entry) entry = entry"
      by (rule cp_dereference_plain)
  qed
  then show ?thesis by simp
qed

lemma link_to_file_copied:
  assumes "Symlink n target \<in> set entries" and "\<not> isExcluded n False"
    and "link_target target = File m data"
  shows "File n data \<in> set (copyDirectory entries)"
proof -
  from assms(3) have "cp_dereference n target = File n data"
    by (simp add: cp_dereference_link_target [of n target])
  with link_copied [OF assms(1,2)] show ?thesis
    by simp
qed

lemma link_to_dir_copied:
  assumes "Symlink n target \<in> set entries" and "\<not> isExcluded n False"
    and "link_target target = Dir m children"
    and "\<forall>y \<in> set (all_nodes children). \<not> is_symlink y"
  shows "Dir n children \<in> set (copyDirectory entries)"
proof -
  from assms(3) have "cp_dereference n target = cp_dereference n (Dir m children)"
    by (simp add: cp_dereference_link_target [of n target])
  with cp_dereference_plain_dir [OF assms(4)] have "cp_dereference n target = Dir n children"
    by simp
  with link_copied [OF assms(1,2)] show ?thesis
    by simp
qed
section \<open>Properties of the paths\<close>











lemma walk_append: "walk here (xs @ ys) = walk (walk here xs) ys"
  by (induction xs arbitrary: here) simp_all

lemma walk_no_dots: "''..'' \<notin> set here \<Longrightarrow> ''..'' \<notin> set (walk here xs)"
proof (induction here xs rule: walk.induct)
  case (1 here)
  then show ?case by simp
next
  case (2 here segment segments)
  then show ?case
    by (auto dest: in_set_butlastD)
qed





lemma entry_names_no_dots: "\<forall>s \<in> set xs. entry_name s \<Longrightarrow> ''..'' \<notin> set xs"
  by (auto simp: entry_name_def)


lemma walk_trailing: "walk here (xs @ [[]]) = walk here xs"
  by (simp add: walk_append)
















section \<open>Properties of the installs\<close>


lemma attempt_complete: "attempt fs_error ops = (done, None) \<Longrightarrow> done = ops"
proof (induction fs_error ops arbitrary: "done" rule: attempt.induct)
  case (1 fs_error)
  then show ?case by simp
next
  case (2 fs_error p ops)
  then show ?case by (auto split: prod.splits)
qed (auto split: prod.splits option.splits)







lemma writes_of_mem: "(p, body) \<in> set (writes_of ops) \<longleftrightarrow> WriteFile p body \<in> set ops"
  by (induction ops rule: writes_of.induct) auto











section \<open>The copy in installSkill\<close>

lemma installSkill_copies:
  assumes "success (fst (installSkill env local target))"
  shows "snd (installSkill env local target) =
    [Rm (installed_path (fst (installSkill env local target))),
     Mkdir (installed_path (fst (installSkill env local target))),
     CopyInto (installed_path (fst (installSkill env local target)))
       (copyDirectory (env_readdir env (path local)))]"
proof -
  let ?dir = "join_path target
      (sanitizeName (if name local \<noteq> [] then name local else basename (path local)))"
  let ?plan = "cleanAndCreateDirectory ?dir @
      [CopyInto ?dir (copyDirectory (env_readdir env (path local)))]"
  from assms have safe: "isPathSafe (env_cwd env) target ?dir"
    by (auto simp: installSkill_def Let_def split: if_splits)
  obtain performed thrown where a: "attempt (env_fs_error env) ?plan = (performed, thrown)"
    by (cases "attempt (env_fs_error env) ?plan")
  with safe assms have "thrown = None"
    by (cases thrown) (simp_all add: installSkill_def Let_def finish_def)
  with a attempt_complete have "performed = ?plan"
    by blast
  with a safe \<open>thrown = None\<close> show ?thesis
    by (simp add: installSkill_def Let_def finish_def cleanAndCreateDirectory_def)
qed

text \<open>
  Claim C9, as amended. The recursive copy leaves out, in the skill directory and in
  every directory below it that it walks: every entry named \<open>README.md\<close> or
  \<open>metadata.json\<close>, file or directory; every entry whose name starts with an
  underscore; and every directory named \<open>.git\<close>. All other entries are copied, under
  their names and in their order: a directory by the same procedure, a file as it
  is, also a file named \<open>.git\<close>. A symbolic link that is not left out is followed and
  copied whole under its own name: a link to a file as that file, a link to a
  directory as that directory with all of its entries, none of them filtered. So when
  the source holds no symbolic link, no entry of the installed directory, at any
  depth, is named \<open>README.md\<close> or \<open>metadata.json\<close> or starts with an underscore, and no
  directory in it is named \<open>.git\<close>. An \<open>installSkill\<close> that succeeds has emptied the
  install directory and written into it what this copy gives for the skill directory.
\<close>

theorem copyDirectory_exclusions:
  "(success (fst (installSkill env local target)) \<longrightarrow>
      snd (installSkill env local target) =
        [Rm (installed_path (fst (installSkill env local target))),
         Mkdir (installed_path (fst (installSkill env local target))),
         CopyInto (installed_path (fst (installSkill env local target)))
           (copyDirectory (env_readdir env (path local)))]) \<and>
   (\<forall>n d. isExcluded n d \<longleftrightarrow>
       n = ''README.md'' \<or> n = ''metadata.json'' \<or> startsWith n ''_'' \<or> (d \<and> n = ''.git'')) \<and>
   map node_name (copyDirectory entries) =
     map node_name (filter (\<lambda>entry. \<not> isExcluded (node_name entry) (isDirectory entry)) entries) \<and>
   (\<forall>n children. Dir n children \<in> set entries \<and> \<not> isExcluded n True \<longrightarrow>
      Dir n (copyDirectory children) \<in> set (copyDirectory entries)) \<and>
   (\<forall>n data. File n data \<in> set entries \<and> \<not> isExcluded n False \<longrightarrow>
      File n data \<in> set (copyDirectory entries)) \<and>
   ((\<forall>x \<in> set (all_nodes entries). \<not> is_symlink x) \<longrightarrow>
      (\<forall>y \<in> set (all_nodes (copyDirectory entries)).
         node_name y \<noteq> ''README.md'' \<and> node_name y \<noteq> ''metadata.json'' \<and>
         \<not> startsWith (node_name y) ''_'' \<and>
         (isDirectory y \<longrightarrow> node_name y \<noteq> ''.git''))) \<and>
   (\<forall>n target m data.
      Symlink n target \<in> set entries \<and> \<not> isExcluded n False \<and>
      link_target target = File m data \<longrightarrow>
      File n data \<in> set (copyDirectory entries)) \<and>
   (\<forall>n target m children.
      Symlink n target \<in> set entries \<and> \<not> isExcluded n False \<and>
      link_target target = Dir m children \<and>
      (\<forall>x \<in> set (all_nodes children). \<not> is_symlink x) \<longrightarrow>
      Dir n children \<in> set (copyDirectory entries))"
proof -
  have clean: "(\<forall>x \<in> set (all_nodes entries). \<not> is_symlink x) \<longrightarrow>
      (\<forall>y \<in> set (all_nodes (copyDirectory entries)).
         node_name y \<noteq> ''README.md'' \<and> node_name y \<noteq> ''metadata.json'' \<and>
         \<not> startsWith (node_name y) ''_'' \<and>
         (isDirectory y \<longrightarrow> node_name y \<noteq> ''.git''))"
  proof (intro impI ballI)
    fix y
    assume "\<forall>x \<in> set (all_nodes entries). \<not> is_symlink x"
      and "y \<in> set (all_nodes (copyDirectory entries))"
    then have "\<not> isExcluded (node_name y) (isDirectory y)"
      by (rule copied_nodes_clean)
    then show "node_name y \<noteq> ''README.md'' \<and> node_name y \<noteq> ''metadata.json'' \<and>
         \<not> startsWith (node_name y) ''_'' \<and>
         (isDirectory y \<longrightarrow> node_name y \<noteq> ''.git'')"
      by (simp add: isExcluded_iff)
  qed
  show ?thesis
  proof (intro conjI)
    show "success (fst (installSkill env local target)) \<longrightarrow>
      snd (installSkill env local target) =
        [Rm (installed_path (fst (installSkill env local target))),
         Mkdir (installed_path (fst (installSkill env local target))),
         CopyInto (installed_path (fst (installSkill env local target)))
           (copyDirectory (env_readdir env (path local)))]"
      by (intro impI) (rule installSkill_copies)
    show "\<forall>n d. isExcluded n d \<longleftrightarrow>
       n = ''README.md'' \<or> n = ''metadata.json'' \<or> startsWith n ''_'' \<or> (d \<and> n = ''.git'')"
      by (intro allI) (rule isExcluded_iff)
    show "map node_name (copyDirectory entries) =
        map node_name (filter (\<lambda>entry. \<not> isExcluded (node_name entry) (isDirectory entry)) entries)"
      by (rule names_copyDirectory)
    show "\<forall>n children. Dir n children \<in> set entries \<and> \<not> isExcluded n True \<longrightarrow>
        Dir n (copyDirectory children) \<in> set (copyDirectory entries)"
      by (intro allI impI) (erule conjE, rule dir_copied)
    show "\<forall>n data. File n data \<in> set entries \<and> \<not> isExcluded n False \<longrightarrow>
        File n data \<in> set (copyDirectory entries)"
      by (intro allI impI) (erule conjE, rule file_copied)
    show "(\<forall>x \<in> set (all_nodes entries). \<not> is_symlink x) \<longrightarrow>
      (\<forall>y \<in> set (all_nodes (copyDirectory entries)).
         node_name y \<noteq> ''README.md'' \<and> node_name y \<noteq> ''metadata.json'' \<and>
         \<not> startsWith (node_name y) ''_'' \<and>
         (isDirectory y \<longrightarrow> node_name y \<noteq> ''.git''))"
      by (rule clean)
    show "\<forall>n target m data.
      Symlink n target \<in> set entries \<and> \<not> isExcluded n False \<and>
      link_target target = File m data \<longrightarrow>
      File n data \<in> set (copyDirectory entries)"
      by (intro allI impI) (elim conjE, rule link_to_file_copied)
    show "\<forall>n target m children.
      Symlink n target \<in> set entries \<and> \<not> isExcluded n False \<and>
      link_target target = Dir m children \<and>
      (\<forall>x \<in> set (all_nodes children). \<not> is_symlink x) \<longrightarrow>
      Dir n children \<in> set (copyDirectory entries)"
      by (intro allI impI) (elim conjE, rule link_to_dir_copied)
  qed
qed

theorem copyDirectory_exclusions_witness:
  "filter is_symlink (all_nodes gitfile_source) = [] \<and>
   Dir ''docs'' [File ''README.md'' ''readme'', File ''_draft.md'' ''d'', File ''use.md'' ''u'',
      Dir ''.git'' [File ''HEAD'' ''ref'']] \<in> set gitfile_source \<and>
   \<not> isExcluded ''docs'' True \<and>
   Dir ''docs'' [File ''use.md'' ''u''] \<in> set (copyDirectory gitfile_source) \<and>
   File ''SKILL.md'' ''skill'' \<in> set gitfile_source \<and> \<not> isExcluded ''SKILL.md'' False \<and>
   File ''SKILL.md'' ''skill'' \<in> set (copyDirectory gitfile_source) \<and>
   Dir ''docs'' [File ''use.md'' ''u''] \<in> set (all_nodes (copyDirectory gitfile_source)) \<and>
   node_name (Dir ''docs'' [File ''use.md'' ''u'']) \<noteq> ''README.md'' \<and>
   Symlink ''shared'' (Dir ''common'' [File ''README.md'' ''readme'', File ''lib.md'' ''l''])
     \<in> set linked_source \<and>
   \<not> isExcluded ''shared'' False \<and>
   Dir ''shared'' [File ''README.md'' ''readme'', File ''lib.md'' ''l'']
     \<in> set (copyDirectory linked_source) \<and>
   Symlink ''LICENSE'' (File ''LICENSE.txt'' ''mit'') \<in> set linked_source \<and>
   \<not> isExcluded ''LICENSE'' False \<and>
   File ''LICENSE'' ''mit'' \<in> set (copyDirectory linked_source)"
proof -
  have plain: "filter is_symlink (all_nodes gitfile_source) = []"
    and docs: "Dir ''docs'' [File ''README.md'' ''readme'', File ''_draft.md'' ''d'',
      File ''use.md'' ''u'', Dir ''.git'' [File ''HEAD'' ''ref'']] \<in> set gitfile_source"
      "\<not> isExcluded ''docs'' True"
    and skill: "File ''SKILL.md'' ''skill'' \<in> set gitfile_source" "\<not> isExcluded ''SKILL.md'' False"
    and below: "copyDirectory [File ''README.md'' ''readme'', File ''_draft.md'' ''d'',
      File ''use.md'' ''u'', Dir ''.git'' [File ''HEAD'' ''ref'']] = [File ''use.md'' ''u'']"
    and shared: "Symlink ''shared'' (Dir ''common'' [File ''README.md'' ''readme'', File ''lib.md'' ''l''])
      \<in> set linked_source" "\<not> isExcluded ''shared'' False"
      "link_target (Dir ''common'' [File ''README.md'' ''readme'', File ''lib.md'' ''l'']) =
         Dir ''common'' [File ''README.md'' ''readme'', File ''lib.md'' ''l'']"
      "filter is_symlink (all_nodes [File ''README.md'' ''readme'', File ''lib.md'' ''l'']) = []"
    and license: "Symlink ''LICENSE'' (File ''LICENSE.txt'' ''mit'') \<in> set linked_source"
      "\<not> isExcluded ''LICENSE'' False"
      "link_target (File ''LICENSE.txt'' ''mit'') = File ''LICENSE.txt'' ''mit''"
    by code_simp+
  note inst = copyDirectory_exclusions [where entries = gitfile_source and env = quiet_env
      and local = local_skill and target = "''/t''"]
  note linked = copyDirectory_exclusions [where entries = linked_source and env = quiet_env
      and local = local_skill and target = "''/t''"]
  from inst have "\<forall>n children. Dir n children \<in> set gitfile_source \<and> \<not> isExcluded n True \<longrightarrow>
      Dir n (copyDirectory children) \<in> set (copyDirectory gitfile_source)"
    by (rule conjunct1 [OF conjunct2 [OF conjunct2 [OF conjunct2]]])
  with docs have "Dir ''docs'' (copyDirectory [File ''README.md'' ''readme'', File ''_draft.md'' ''d'',
      File ''use.md'' ''u'', Dir ''.git'' [File ''HEAD'' ''ref'']]) \<in> set (copyDirectory gitfile_source)"
    by blast
  then have d: "Dir ''docs'' [File ''use.md'' ''u''] \<in> set (copyDirectory gitfile_source)"
    by (simp only: below)
  from inst have "\<forall>n data. File n data \<in> set gitfile_source \<and> \<not> isExcluded n False \<longrightarrow>
      File n data \<in> set (copyDirectory gitfile_source)"
    by (rule conjunct1 [OF conjunct2 [OF conjunct2 [OF conjunct2 [OF conjunct2]]]])
  with skill have s: "File ''SKILL.md'' ''skill'' \<in> set (copyDirectory gitfile_source)"
    by blast
  have "Dir ''docs'' [File ''use.md'' ''u''] \<in> set (nodes_below (Dir ''docs'' [File ''use.md'' ''u'']))"
    by simp
  with d have a: "Dir ''docs'' [File ''use.md'' ''u''] \<in> set (all_nodes (copyDirectory gitfile_source))"
    unfolding all_nodes_def set_concat set_map by blast
  from plain have links: "\<forall>x \<in> set (all_nodes gitfile_source). \<not> is_symlink x"
    by (simp only: filter_empty_conv)
  from inst have "(\<forall>x \<in> set (all_nodes gitfile_source). \<not> is_symlink x) \<longrightarrow>
      (\<forall>y \<in> set (all_nodes (copyDirectory gitfile_source)).
         node_name y \<noteq> ''README.md'' \<and> node_name y \<noteq> ''metadata.json'' \<and>
         \<not> startsWith (node_name y) ''_'' \<and>
         (isDirectory y \<longrightarrow> node_name y \<noteq> ''.git''))"
    by (rule conjunct1 [OF conjunct2 [OF conjunct2 [OF conjunct2 [OF conjunct2 [OF conjunct2]]]]])
  with links a have n: "node_name (Dir ''docs'' [File ''use.md'' ''u'']) \<noteq> ''README.md''"
    by blast
  from linked have to_file: "\<forall>n target m data.
      Symlink n target \<in> set linked_source \<and> \<not> isExcluded n False \<and>
      link_target target = File m data \<longrightarrow>
      File n data \<in> set (copyDirectory linked_source)"
    by (rule conjunct1 [OF conjunct2 [OF conjunct2 [OF conjunct2 [OF conjunct2 [OF conjunct2
        [OF conjunct2]]]]]])
  from linked have to_dir: "\<forall>n target m children.
      Symlink n target \<in> set linked_source \<and> \<not> isExcluded n False \<and>
      link_target target = Dir m children \<and>
      (\<forall>x \<in> set (all_nodes children). \<not> is_symlink x) \<longrightarrow>
      Dir n children \<in> set (copyDirectory linked_source)"
    by (rule conjunct2 [OF conjunct2 [OF conjunct2 [OF conjunct2 [OF conjunct2 [OF conjunct2
        [OF conjunct2]]]]]])
  from shared(4)
  have "\<forall>x \<in> set (all_nodes [File ''README.md'' ''readme'', File ''lib.md'' ''l'']). \<not> is_symlink x"
    by (simp only: filter_empty_conv)
  with to_dir shared(1,2,3)
  have sh: "Dir ''shared'' [File ''README.md'' ''readme'', File ''lib.md'' ''l'']
      \<in> set (copyDirectory linked_source)"
    by blast
  from to_file license
  have li: "File ''LICENSE'' ''mit'' \<in> set (copyDirectory linked_source)"
    by blast
  from plain docs skill d s a n shared(1,2) sh license(1,2) li show ?thesis
    by (intro conjI)
qed

text \<open>
  Claim C9 as stated fails in three ways. A file named \<open>.git\<close> (a submodule or a
  worktree has one) is copied, so the installed directory holds an entry named
  \<open>.git\<close>. A directory named \<open>README.md\<close>, which is none of the entries the claim
  lists, is not copied. And a symbolic link to a directory is copied with all that
  the directory holds, so the installed directory holds a \<open>README.md\<close> one level down.
\<close>

theorem copyDirectory_git_file_counterexample:
  "copyDirectory gitfile_source =
     [File ''SKILL.md'' ''skill'', File ''.git'' ''gitdir: ../.git/modules/a'',
      Dir ''docs'' [File ''use.md'' ''u'']] \<and>
   ''.git'' \<in> set (map node_name (copyDirectory gitfile_source)) \<and>
   copyDirectory readme_dir_source = [File ''SKILL.md'' ''skill''] \<and>
   copyDirectory linked_source =
     [File ''SKILL.md'' ''skill'',
      Dir ''shared'' [File ''README.md'' ''readme'', File ''lib.md'' ''l''],
      File ''LICENSE'' ''mit''] \<and>
   File ''README.md'' ''readme'' \<in> set (all_nodes (copyDirectory linked_source))"
  by code_simp

end
